(* ===== verification/Prelude.thy ===== *)
theory Prelude
  imports Main "HOL-Library.Word" "HOL-Library.Sublist" "HOL-Library.Multiset"
begin

text \<open>
  Shared vocabulary of the development. A JavaScript string is a sequence of UTF-16
  code units, so it is modelled as a list of \<open>16 word\<close>; \<open>js\<close> turns an Isabelle
  string literal (whose characters are bytes) into the code units of the same
  Latin-1 text, which is how the literals of \<^verbatim>\<open>src/frontend/app/page.tsx\<close> are
  written down here. The collections \<open>js_defs\<close> and \<open>page_simps\<close> gather the
  definitions that the component proofs unfold on concrete inputs. The generic list
  operation \<open>split_on\<close> (cutting a list at every separator) is shared by the
  URL-route reading of the download component. \<open>opt_run\<close> runs a partial step function
  over a list of events; \<open>drain_keys\<close> is the completion argument shared by the
  generation requests and the downloads in flight: when every event for a key of an
  association list of outstanding operations removes that key, the events for all the
  keys, in any order (a permutation, stated with multisets), empty the list.
\<close>

named_theorems js_defs "definitions of JavaScript value and character predicates"
named_theorems page_simps "unfolding equations of the page's handlers"

type_synonym code_unit = "16 word"
type_synonym jstr = "code_unit list"

definition js :: "string \<Rightarrow> jstr" where
  "js s = map (\<lambda>c. of_nat (of_char c)) s"

fun split_on :: "'a \<Rightarrow> 'a list \<Rightarrow> 'a list list" where
  "split_on d [] = [[]]"
| "split_on d (c # cs) =
     (if c = d then [] # split_on d cs
      else (case split_on d cs of [] \<Rightarrow> [[c]] | w # ws \<Rightarrow> (c # w) # ws))"

fun opt_run :: "('s \<Rightarrow> 'e \<Rightarrow> 's option) \<Rightarrow> 's \<Rightarrow> 'e list \<Rightarrow> 's option" where
  "opt_run f s [] = Some s"
| "opt_run f s (e # es) = (case f s e of None \<Rightarrow> None | Some t \<Rightarrow> opt_run f t es)"

lemma js_Nil [simp]: "js [] = []"
  by (simp add: js_def)

lemma js_Cons [simp]: "js (c # s) = of_nat (of_char c) # js s"
  by (simp add: js_def)

lemma js_append [simp]: "js (s @ t) = js s @ js t"
  by (simp add: js_def)

lemma length_js [simp]: "length (js s) = length s"
  by (simp add: js_def)

lemma split_on_no_sep: "d \<notin> set xs \<Longrightarrow> split_on d xs = [xs]"
  by (induction xs) auto

lemma split_on_append_sep:
  "d \<notin> set xs \<Longrightarrow> split_on d (xs @ d # ys) = xs # split_on d ys"
  by (induction xs) auto

lemma split_on_nonempty [simp]: "split_on d xs \<noteq> []"
  by (induction xs) (auto split: list.split)

lemma split_on_sep_free: "w \<in> set (split_on d xs) \<Longrightarrow> d \<notin> set w"
  by (induction d xs arbitrary: w rule: split_on.induct) (auto split: if_splits list.splits)

lemma takeWhile_dropWhile_split: "takeWhile P xs @ dropWhile P xs = xs"
  by (rule takeWhile_dropWhile_id)

lemma drop_length_takeWhile [simp]: "drop (length (takeWhile P xs)) xs = dropWhile P xs"
  by (simp add: dropWhile_eq_drop)

lemma map_fst_filter_neq:
  "distinct (map fst xs) \<Longrightarrow> map fst (filter (\<lambda>(j, _). j \<noteq> i) xs) = remove1 i (map fst xs)"
  by (induction xs) (auto simp: image_iff filter_id_conv remove1_idem split: prod.splits)

lemma map_of_present: "i \<in> set (map fst xs) \<Longrightarrow> \<exists>v. map_of xs i = Some v"
  by (cases "map_of xs i") (auto simp: map_of_eq_None_iff)

lemma map_of_filter_neq: "i \<noteq> j \<Longrightarrow> map_of (filter (\<lambda>(k, _). k \<noteq> j) xs) i = map_of xs i"
  by (induction xs) auto

lemma drain_keys:
  fixes K :: "'s \<Rightarrow> ('k \<times> 'v) list" and L :: "'s \<Rightarrow> 'o list"
  assumes step: "\<And>s i v. map_of (K s) i = Some v \<Longrightarrow>
                   \<exists>t. f s (ev i) = Some t \<and> K t = filter (\<lambda>(j, _). j \<noteq> i) (K s) \<and>
                       L t = L s @ out v \<and> R s t"
    and trans: "\<And>s t u. R s t \<Longrightarrow> R t u \<Longrightarrow> R s u"
  shows "distinct (map fst (K s)) \<Longrightarrow> mset ks = mset (map fst (K s)) \<Longrightarrow>
         \<exists>t. opt_run f s (map ev ks) = Some t \<and> K t = [] \<and>
             L t = L s @ concat (map (\<lambda>k. out (the (map_of (K s) k))) ks) \<and> (ks \<noteq> [] \<longrightarrow> R s t)"
proof (induction ks arbitrary: s)
  case Nil
  from Nil.prems(2) have "map fst (K s) = []" by simp
  then show ?case by simp
next
  case (Cons i ks)
  have eq: "set (i # ks) = set (map fst (K s))"
    by (rule mset_eq_setD [OF Cons.prems(2)])
  have dik: "distinct (i # ks)"
    using mset_eq_imp_distinct_iff [OF Cons.prems(2)] Cons.prems(1) by simp
  have "i \<in> set (map fst (K s))" unfolding eq [symmetric] by simp
  from map_of_present [OF this] obtain v where v: "map_of (K s) i = Some v" ..
  from step [OF this] obtain s' where s': "f s (ev i) = Some s'"
    and k: "K s' = filter (\<lambda>(j, _). j \<noteq> i) (K s)" and l: "L s' = L s @ out v" and r: "R s s'"
    by blast
  have ids: "map fst (K s') = remove1 i (map fst (K s))"
    unfolding k using Cons.prems(1) by (rule map_fst_filter_neq)
  have d: "distinct (map fst (K s'))"
    using Cons.prems(1) by (simp only: ids distinct_remove1)
  have h: "image_mset fst (mset (K s)) = add_mset i (mset ks)"
    using Cons.prems(2) by simp
  have m: "mset ks = mset (map fst (K s'))"
    by (simp only: ids mset_remove1) (simp add: h)
  obtain t where t: "opt_run f s' (map ev ks) = Some t" and kt: "K t = []"
    and lt: "L t = L s' @ concat (map (\<lambda>k. out (the (map_of (K s') k))) ks)"
    and rt: "ks \<noteq> [] \<longrightarrow> R s' t"
    using Cons.IH [OF d m] by blast
  have "map (\<lambda>k. out (the (map_of (K s') k))) ks = map (\<lambda>k. out (the (map_of (K s) k))) ks"
  proof (rule map_cong [OF refl])
    fix k assume "k \<in> set ks"
    with dik have "k \<noteq> i" by auto
    then show "out (the (map_of (K s') k)) = out (the (map_of (K s) k))"
      by (simp add: k map_of_filter_neq)
  qed
  with lt l v have log: "L t = L s @ concat (map (\<lambda>k. out (the (map_of (K s) k))) (i # ks))"
    by simp
  have "R s t"
  proof (cases "ks = []")
    case True
    with t have "t = s'" by simp
    with r show ?thesis by simp
  next
    case False
    with rt r show ?thesis by (blast intro: trans)
  qed
  with s' t kt log show ?case by simp
qed

end
