(* ===== verification/JsString.thy ===== *)
theory JsString
  imports Prelude
begin

text \<open>
  The pieces of the JavaScript string library that \<^verbatim>\<open>page.tsx\<close> relies on, at
  the level of UTF-16 code units: the white-space class shared by
  \<^verbatim>\<open>String.prototype.trim\<close> and the regular-expression escape \<^verbatim>\<open>\s\<close>, the ASCII
  class \<^verbatim>\<open>[a-zA-Z0-9]\<close>, \<^verbatim>\<open>trim\<close> itself, the global replace
  \<^verbatim>\<open>s.replace(/re/g, r)\<close> for an anchored matcher, and the decimal rendering of a
  non-negative integer in a template literal. The lemmas show what the global replace
  computes for the two regular expressions of the page (a single-character class and
  a class followed by \<^verbatim>\<open>+\<close>), and that the decimal rendering is read back by a
  decimal reader.
\<close>

definition is_js_space :: "code_unit \<Rightarrow> bool" where
  "is_js_space c \<longleftrightarrow>
     c \<in> {0x09, 0x0A, 0x0B, 0x0C, 0x0D, 0x20, 0xA0, 0x1680, 0x2028, 0x2029, 0x202F,
          0x205F, 0x3000, 0xFEFF}
     \<or> (0x2000 \<le> c \<and> c \<le> 0x200A)"

definition is_ascii_alnum :: "code_unit \<Rightarrow> bool" where
  "is_ascii_alnum c \<longleftrightarrow>
     (0x30 \<le> c \<and> c \<le> 0x39) \<or> (0x41 \<le> c \<and> c \<le> 0x5A) \<or> (0x61 \<le> c \<and> c \<le> 0x7A)"

declare is_js_space_def [js_defs] is_ascii_alnum_def [js_defs]

definition js_trim :: "jstr \<Rightarrow> jstr" where
  "js_trim s = rev (dropWhile is_js_space (rev (dropWhile is_js_space s)))"

text \<open>
  A matcher reads the regular expression at the start of the remaining input:
  \<open>Some k\<close> is a match of length \<open>k\<close> there, \<open>None\<close> no match. The global replace
  walks the string left to right as \<^verbatim>\<open>RegExp.prototype[Symbol.replace]\<close> does with
  the \<^verbatim>\<open>g\<close> flag: where there is no match the code unit is copied, a match is
  replaced by \<open>r\<close> and skipped, and after an empty match the code unit under it is
  copied (\<^verbatim>\<open>AdvanceStringIndex\<close>).
\<close>

type_synonym matcher = "jstr \<Rightarrow> nat option"

function re_replace_all :: "matcher \<Rightarrow> jstr \<Rightarrow> jstr \<Rightarrow> jstr" where
  "re_replace_all m r [] = (case m [] of None \<Rightarrow> [] | Some _ \<Rightarrow> r)"
| "re_replace_all m r (c # cs) =
     (case m (c # cs) of
        None \<Rightarrow> c # re_replace_all m r cs
      | Some k \<Rightarrow>
          if k = 0 then r @ c # re_replace_all m r cs
          else r @ re_replace_all m r (drop k (c # cs)))"
  by pat_completeness auto
termination
  by (relation "measure (\<lambda>(m, r, s). length s)") auto

definition char_class :: "(code_unit \<Rightarrow> bool) \<Rightarrow> matcher" where
  "char_class P s = (case s of [] \<Rightarrow> None | c # _ \<Rightarrow> if P c then Some 1 else None)"

definition class_plus :: "(code_unit \<Rightarrow> bool) \<Rightarrow> matcher" where
  "class_plus P s = (case takeWhile P s of [] \<Rightarrow> None | w \<Rightarrow> Some (length w))"

fun js_nat_str :: "nat \<Rightarrow> jstr" where
  "js_nat_str n =
     (if n < 10 then [of_nat (48 + n)] else js_nat_str (n div 10) @ [of_nat (48 + n mod 10)])"

declare js_nat_str.simps [simp del]

text \<open>
  Reference definitions. \<open>collapse_runs P r s\<close> replaces every maximal run of
  \<open>P\<close>-code units of \<open>s\<close> by \<open>r\<close>, as the spec describes the filename rule. The
  decimal reader \<open>parse_dec\<close> reads a non-empty string of ASCII digits.
\<close>

function collapse_runs :: "(code_unit \<Rightarrow> bool) \<Rightarrow> jstr \<Rightarrow> jstr \<Rightarrow> jstr" where
  "collapse_runs P r [] = []"
| "collapse_runs P r (c # cs) =
     (if P c then r @ collapse_runs P r (dropWhile P cs) else c # collapse_runs P r cs)"
  by pat_completeness auto
termination
  by (relation "measure (\<lambda>(P, r, s). length s)") (auto simp: le_imp_less_Suc length_dropWhile_le)

fun parse_dec_acc :: "nat \<Rightarrow> jstr \<Rightarrow> nat option" where
  "parse_dec_acc acc [] = Some acc"
| "parse_dec_acc acc (c # cs) =
     (if 48 \<le> c \<and> c \<le> 57 then parse_dec_acc (10 * acc + (unat c - 48)) cs else None)"

definition parse_dec :: "jstr \<Rightarrow> nat option" where
  "parse_dec s = (if s = [] then None else parse_dec_acc 0 s)"

subsection \<open>Trim, global replace and decimal rendering\<close>

lemma js_trim_Nil_iff: "js_trim s = [] \<longleftrightarrow> list_all is_js_space s"
proof
  assume h: "js_trim s = []"
  show "list_all is_js_space s"
  proof (cases "dropWhile is_js_space s")
    case Nil
    then show ?thesis by (simp add: list_all_iff)
  next
    case (Cons c cs)
    then have "\<not> is_js_space c" using hd_dropWhile [of is_js_space s] by auto
    with h Cons show ?thesis by (simp add: js_trim_def)
  qed
next
  assume "list_all is_js_space s"

  then show "js_trim s = []" by (auto simp: js_trim_def list_all_iff dest: set_dropWhileD)
qed

lemma re_replace_char_class:
  "re_replace_all (char_class P) r s = concat (map (\<lambda>c. if P c then r else [c]) s)"
  by (induction s) (auto simp: char_class_def)

lemma class_plus_Cons:
  "class_plus P (c # cs) = (if P c then Some (Suc (length (takeWhile P cs))) else None)"
  by (simp add: class_plus_def)

lemma re_replace_class_plus:
  "re_replace_all (class_plus P) r s = collapse_runs P r s"
proof (induction "class_plus P" r s rule: re_replace_all.induct)
  case (1 r)
  then show ?case by (simp add: class_plus_def)
next
  case (2 r c cs)
  show ?case
  proof (cases "P c")
    case True
    let ?k = "Suc (length (takeWhile P cs))"
    have m: "class_plus P (c # cs) = Some ?k" using True by (simp add: class_plus_Cons)
    have "re_replace_all (class_plus P) r (drop ?k (c # cs)) = collapse_runs P r (drop ?k (c # cs))"
      using "2.hyps"(3) [OF m] by simp
    with True m show ?thesis by simp
  next
    case False
    then show ?thesis using "2.hyps"(1) by (simp add: class_plus_Cons)
  qed
qed

lemma digit_unat: "d < 10 \<Longrightarrow> unat (of_nat (48 + d) :: code_unit) = 48 + d"
proof -
  assume "d < 10"
  moreover have "unat (of_nat (48 + d) :: code_unit) = (48 + d) mod 2 ^ LENGTH(16)"
    by (rule unat_of_nat)
  ultimately show ?thesis by simp
qed

lemma digit_range: "d < 10 \<Longrightarrow> 48 \<le> (of_nat (48 + d) :: code_unit) \<and> (of_nat (48 + d) :: code_unit) \<le> 57"
  by (simp only: word_le_nat_alt digit_unat) simp

lemma parse_dec_acc_snoc:
  "parse_dec_acc acc (s @ [c]) =
     (case parse_dec_acc acc s of None \<Rightarrow> None
      | Some v \<Rightarrow> if 48 \<le> c \<and> c \<le> 57 then Some (10 * v + (unat c - 48)) else None)"
  by (induction acc s rule: parse_dec_acc.induct) auto

lemma parse_dec_acc_nat_str: "parse_dec_acc 0 (js_nat_str n) = Some n"
proof (induction n rule: js_nat_str.induct)
  case (1 n)
  show ?case
  proof (cases "n < 10")
    case True
    then show ?thesis using digit_range [of n] digit_unat [of n]
      by (simp add: js_nat_str.simps [of n])
  next
    case False
    then have "parse_dec_acc 0 (js_nat_str (n div 10)) = Some (n div 10)" using "1" by simp
    with False show ?thesis
      using digit_range [of "n mod 10"] digit_unat [of "n mod 10"]
      by (simp add: js_nat_str.simps [of n] parse_dec_acc_snoc)
  qed
qed

lemma js_nat_str_nonempty: "js_nat_str n \<noteq> []"
  by (simp add: js_nat_str.simps [of n])

lemma parse_dec_nat_str: "parse_dec (js_nat_str n) = Some n"
  by (simp add: parse_dec_def js_nat_str_nonempty parse_dec_acc_nat_str)

lemma js_nat_str_digits: "list_all (\<lambda>c. 48 \<le> c \<and> c \<le> 57) (js_nat_str n)"
proof (induction n rule: js_nat_str.induct)
  case (1 n)
  show ?case
  proof (cases "n < 10")
    case True
    then show ?thesis using digit_range [of n] by (simp add: js_nat_str.simps [of n])
  next
    case False
    then show ?thesis using "1" digit_range [of "n mod 10"] by (simp add: js_nat_str.simps [of n])
  qed
qed

end
