(* ===== verification/Json.thy ===== *)
theory Json
  imports Prelude
begin

text \<open>
  JavaScript values as they arrive in a parsed JSON body, and the three JavaScript
  operations \<^verbatim>\<open>page.tsx\<close> applies to a value of type \<^verbatim>\<open>any\<close>: truthiness, optional
  property access \<^verbatim>\<open>v?.k\<close> and \<^verbatim>\<open>a || b\<close>. \<open>None\<close> of a \<open>jval option\<close> is
  \<^verbatim>\<open>undefined\<close>. JSON numbers are modelled by their integer values (truthiness only
  asks whether a number is zero); an object is its list of members in source order,
  and a repeated key reads as its last occurrence, as \<^verbatim>\<open>JSON.parse\<close> keeps it.
\<close>

datatype jval =
    JNull
  | JBool bool
  | JNum int
  | JStr jstr
  | JArr "jval list"
  | JObj "(jstr \<times> jval) list"

fun js_truthy :: "jval \<Rightarrow> bool" where
  "js_truthy JNull = False"
| "js_truthy (JBool b) = b"
| "js_truthy (JNum n) = (n \<noteq> 0)"
| "js_truthy (JStr s) = (s \<noteq> [])"
| "js_truthy (JArr _) = True"
| "js_truthy (JObj _) = True"

text \<open>
  \<^verbatim>\<open>v?.k\<close>: \<^verbatim>\<open>undefined\<close> when \<open>v\<close> is \<^verbatim>\<open>undefined\<close> or \<^verbatim>\<open>null\<close>; the member
  \<open>k\<close> of an object; \<^verbatim>\<open>undefined\<close> for the other values, which is what JavaScript
  gives for a key that is not a property of strings, numbers, booleans or arrays (such
  as \<^verbatim>\<open>detail\<close>).
\<close>

definition opt_get :: "jval option \<Rightarrow> jstr \<Rightarrow> jval option" where
  "opt_get v k = (case v of Some (JObj kvs) \<Rightarrow> map_of (rev kvs) k | _ \<Rightarrow> None)"

definition js_or :: "jval option \<Rightarrow> jval \<Rightarrow> jval" where
  "js_or a b = (case a of Some v \<Rightarrow> if js_truthy v then v else b | None \<Rightarrow> b)"

definition js_truthy_opt :: "jval option \<Rightarrow> bool" where
  "js_truthy_opt v = (case v of Some x \<Rightarrow> js_truthy x | None \<Rightarrow> False)"

declare opt_get_def [js_defs] js_or_def [js_defs] js_truthy_opt_def [js_defs]

lemma js_or_truthy: "a = Some v \<Longrightarrow> js_truthy v \<Longrightarrow> js_or a b = v"
  by (simp add: js_or_def)

lemma js_or_falsy: "(\<forall>v. a = Some v \<longrightarrow> \<not> js_truthy v) \<Longrightarrow> js_or a b = b"
  by (cases a) (auto simp: js_or_def)

lemma js_or_truthy_if: "js_truthy b \<Longrightarrow> js_truthy (js_or a b)"
  by (simp add: js_or_def split: option.split)

lemma opt_get_obj [simp]: "opt_get (Some (JObj kvs)) k = map_of (rev kvs) k"
  by (simp add: opt_get_def)

end
