(* ===== verification/Model.thy ===== *)
theory Model
  imports JsString Json
begin

text \<open>
  The data of \<^verbatim>\<open>src/frontend/app/page.tsx\<close>: the two TypeScript interfaces
  \<^verbatim>\<open>NewsArticle\<close> and \<^verbatim>\<open>GenerateNewsResponse\<close> (lines 7--18) as records, the
  outcomes of the two axios requests as datatypes, the base URL taken from
  \<^verbatim>\<open>NEXT_PUBLIC_API_URL\<close>, and the five \<^verbatim>\<open>useState\<close> cells of the component
  \<^verbatim>\<open>Home\<close> (lines 21--25) as the record \<open>page_state\<close>. The response fields
  \<^verbatim>\<open>articles\<close> and \<^verbatim>\<open>url\<close> are named \<open>resp_articles\<close> and \<open>resp_url\<close>, since the
  state cells of the same names are fields of \<open>page_state\<close>.
\<close>

record NewsArticle =
  title :: jstr
  content :: jstr
  key_quote :: jstr

record GenerateNewsResponse =
  success :: bool
  resp_articles :: "NewsArticle list"
  session_id :: jstr
  resp_url :: jstr

text \<open>
  \<^verbatim>\<open>axios.post\<close> either resolves with the typed body or rejects; the rejection
  carries \<^verbatim>\<open>err.response?.data\<close>, \<^verbatim>\<open>undefined\<close> (\<open>None\<close>) when there was no
  response at all. \<^verbatim>\<open>axios.get\<close> with \<^verbatim>\<open>responseType: 'blob'\<close> resolves with the
  bytes of the body or rejects.
\<close>

datatype post_outcome = PostResolved GenerateNewsResponse | PostRejected "jval option"

datatype get_outcome = GetResolved "8 word list" | GetRejected

definition default_api_url :: jstr where
  "default_api_url = js ''http://localhost:8000''"

definition api_base :: "jstr option \<Rightarrow> jstr" where
  "api_base env = (case env of Some u \<Rightarrow> if u = [] then default_api_url else u | None \<Rightarrow> default_api_url)"

record page_state =
  url :: jstr
  loading :: bool
  articles :: "NewsArticle list"
  sessionId :: "jstr option"
  error :: "jval option"

definition init_page :: page_state where
  "init_page = \<lparr>url = [], loading = False, articles = [], sessionId = None, error = None\<rparr>"

end
