(* ===== verification/Submit.thy ===== *)
theory Submit
  imports Model
begin

text \<open>
  The submission handler \<^verbatim>\<open>handleSubmit\<close> (\<^verbatim>\<open>page.tsx\<close> lines 27--53). It is
  asynchronous: the part before \<^verbatim>\<open>await\<close> (the blank-input guard and the three
  state updates) is \<open>handleSubmit_start\<close>, which also returns the POST request it
  issues; the part after the response (the \<^verbatim>\<open>if\<close>, the \<^verbatim>\<open>catch\<close> and the
  \<^verbatim>\<open>finally\<close>) is \<open>handleSubmit_finish\<close>, applied to whatever the state is when the
  response arrives. \<open>handleSubmit\<close> runs the two halves back to back against a
  generation service given as a function from requests to outcomes; the session
  machine of \<open>Session\<close> interleaves them with other events instead.
\<close>

datatype submit_request = GenerateNews (endpoint: jstr) (payload_url: jstr)

definition failed_msg :: jstr where
  "failed_msg = js ''Failed to generate news articles''"

definition fallback_msg :: jstr where
  "fallback_msg = js ''An error occurred while processing the podcast''"

definition generate_request :: "jstr option \<Rightarrow> page_state \<Rightarrow> submit_request" where
  "generate_request env st = GenerateNews (api_base env @ js ''/generate-news'') (url st)"

definition error_detail :: "jval option \<Rightarrow> jval" where
  "error_detail data = js_or (opt_get data (js ''detail'')) (JStr fallback_msg)"

definition handleSubmit_start ::
    "jstr option \<Rightarrow> page_state \<Rightarrow> (page_state \<times> submit_request) option" where
  "handleSubmit_start env st =
     (if js_trim (url st) = [] then None
      else Some (st\<lparr>loading := True, error := None, articles := []\<rparr>, generate_request env st))"

definition handleSubmit_finish :: "post_outcome \<Rightarrow> page_state \<Rightarrow> page_state" where
  "handleSubmit_finish r st =
     (case r of
        PostResolved d \<Rightarrow>
          (if success d then st\<lparr>articles := resp_articles d, sessionId := Some (session_id d)\<rparr>
           else st\<lparr>error := Some (JStr failed_msg)\<rparr>)
      | PostRejected data \<Rightarrow> st\<lparr>error := Some (error_detail data)\<rparr>)\<lparr>loading := False\<rparr>"

definition handleSubmit ::
    "jstr option \<Rightarrow> (submit_request \<Rightarrow> post_outcome) \<Rightarrow> page_state
     \<Rightarrow> page_state \<times> submit_request list" where
  "handleSubmit env srv st =
     (case handleSubmit_start env st of
        None \<Rightarrow> (st, [])
      | Some (st1, rq) \<Rightarrow> (handleSubmit_finish (srv rq) st1, [rq]))"

declare handleSubmit_start_def [page_simps] handleSubmit_finish_def [page_simps]
  handleSubmit_def [page_simps]

subsection \<open>The guard and the request\<close>

lemma handleSubmit_start_blank:
  "list_all is_js_space (url st) \<Longrightarrow> handleSubmit_start env st = None"
  by (simp add: handleSubmit_start_def js_trim_Nil_iff)

lemma handleSubmit_start_nonblank:
  "\<not> list_all is_js_space (url st) \<Longrightarrow>
   handleSubmit_start env st =
     Some (st\<lparr>loading := True, error := None, articles := []\<rparr>, generate_request env st)"
  by (simp add: handleSubmit_start_def js_trim_Nil_iff)

lemma handleSubmit_nonblank:
  "\<not> list_all is_js_space (url st) \<Longrightarrow>
   handleSubmit env srv st =
     (handleSubmit_finish (srv (generate_request env st))
        (st\<lparr>loading := True, error := None, articles := []\<rparr>), [generate_request env st])"
  by (simp add: handleSubmit_def handleSubmit_start_nonblank)

text \<open>
  The source URL that the response echoes back (\<^verbatim>\<open>url\<close>) is never read: the state
  after a resolved response does not depend on it, although the spec's Ready state
  keeps it.
\<close>

lemma finish_ignores_source_url:
  "handleSubmit_finish (PostResolved (d\<lparr>resp_url := u\<rparr>)) st = handleSubmit_finish (PostResolved d) st"
  by (simp add: handleSubmit_finish_def)

text \<open>
  C1: a blank or white-space-only URL (every code unit in the class that
  \<^verbatim>\<open>trim\<close> removes) makes \<^verbatim>\<open>handleSubmit\<close> return at its guard: no request is
  issued and the page state is unchanged.
\<close>

theorem blank_submit_no_request:
  assumes "list_all is_js_space (url st)"
  shows "handleSubmit env srv st = (st, [])"
  using assms by (simp add: handleSubmit_def handleSubmit_start_blank)

theorem blank_submit_no_request_witness:
  "list_all is_js_space (js '' \<newline>'') \<and>
   handleSubmit None (\<lambda>_. PostRejected None) (init_page\<lparr>url := js '' \<newline>''\<rparr>)
     = (init_page\<lparr>url := js '' \<newline>''\<rparr>, [])"
  using blank_submit_no_request [of "init_page\<lparr>url := js '' \<newline>''\<rparr>" None "\<lambda>_. PostRejected None"]
  by (simp add: init_page_def is_js_space_def)

text \<open>
  C2: a URL that is not blank makes \<^verbatim>\<open>handleSubmit\<close> issue exactly one request, a
  POST to \<^verbatim>\<open>${apiUrl}/generate-news\<close> whose payload is the URL as typed; there is
  no retry.
\<close>

theorem submit_single_request:
  assumes "\<not> list_all is_js_space (url st)"
  shows "snd (handleSubmit env srv st) =
           [GenerateNews (api_base env @ js ''/generate-news'') (url st)]"
  using assms by (simp add: handleSubmit_nonblank generate_request_def)

theorem submit_single_request_witness:
  "\<not> list_all is_js_space (js ''u'') \<and>
   snd (handleSubmit None (\<lambda>_. PostRejected None) (init_page\<lparr>url := js ''u''\<rparr>)) =
     [GenerateNews (js ''http://localhost:8000/generate-news'') (js ''u'')]"
  using submit_single_request [of "init_page\<lparr>url := js ''u''\<rparr>" None "\<lambda>_. PostRejected None"]
  by (simp add: init_page_def is_js_space_def api_base_def default_api_url_def)

subsection \<open>The three outcomes of a submission\<close>

text \<open>
  C3: when the service answers a non-blank submission with \<^verbatim>\<open>success = true\<close>, the
  page ends with the returned article list as it was returned, the returned session
  id, no error and the loading flag cleared.
\<close>

theorem submit_success:
  assumes "\<not> list_all is_js_space (url st)"
    and "srv (generate_request env st) = PostResolved d" and "success d"
  shows "fst (handleSubmit env srv st) =
           st\<lparr>loading := False, error := None, articles := resp_articles d,
              sessionId := Some (session_id d)\<rparr>"
  using assms by (simp add: handleSubmit_nonblank handleSubmit_finish_def)

theorem submit_success_witness:
  "fst (handleSubmit None (\<lambda>_. PostResolved \<lparr>success = True,
       resp_articles = [\<lparr>title = js ''X'', content = js ''Y'', key_quote = js ''Z''\<rparr>],
       session_id = js ''s1'', resp_url = js ''u''\<rparr>) (init_page\<lparr>url := js ''u''\<rparr>))
   = \<lparr>url = js ''u'', loading = False,
      articles = [\<lparr>title = js ''X'', content = js ''Y'', key_quote = js ''Z''\<rparr>],
      sessionId = Some (js ''s1''), error = None\<rparr>"
  using submit_success [of "init_page\<lparr>url := js ''u''\<rparr>"
      "\<lambda>_. PostResolved \<lparr>success = True,
       resp_articles = [\<lparr>title = js ''X'', content = js ''Y'', key_quote = js ''Z''\<rparr>],
       session_id = js ''s1'', resp_url = js ''u''\<rparr>" None]
  by (simp add: init_page_def is_js_space_def)

text \<open>
  C4: when the service answers with \<^verbatim>\<open>success = false\<close>, the page ends with the
  error \<^verbatim>\<open>Failed to generate news articles\<close>, no articles and the loading flag
  cleared.
\<close>

theorem submit_generation_failed:
  assumes "\<not> list_all is_js_space (url st)"
    and "srv (generate_request env st) = PostResolved d" and "\<not> success d"
  shows "fst (handleSubmit env srv st) =
           st\<lparr>loading := False, error := Some (JStr (js ''Failed to generate news articles'')),
              articles := []\<rparr>"
  using assms by (simp add: handleSubmit_nonblank handleSubmit_finish_def failed_msg_def)

theorem submit_generation_failed_witness:
  "fst (handleSubmit None (\<lambda>_. PostResolved \<lparr>success = False, resp_articles = [],
       session_id = js ''s1'', resp_url = js ''u''\<rparr>) (init_page\<lparr>url := js ''u''\<rparr>))
   = \<lparr>url = js ''u'', loading = False, articles = [], sessionId = None,
      error = Some (JStr (js ''Failed to generate news articles''))\<rparr>"
  using submit_generation_failed [of "init_page\<lparr>url := js ''u''\<rparr>"
      "\<lambda>_. PostResolved \<lparr>success = False, resp_articles = [],
       session_id = js ''s1'', resp_url = js ''u''\<rparr>" None]
  by (simp add: init_page_def is_js_space_def)

text \<open>
  C5: when the POST rejects (no response, or a response with a non-2xx status), the
  page ends with the error \<open>error_detail\<close> takes from the response body, no articles
  and the loading flag cleared.
\<close>

theorem submit_rejected:
  assumes "\<not> list_all is_js_space (url st)"
    and "srv (generate_request env st) = PostRejected data"
  shows "fst (handleSubmit env srv st) =
           st\<lparr>loading := False, error := Some (error_detail data), articles := []\<rparr>"
  using assms by (simp add: handleSubmit_nonblank handleSubmit_finish_def)

theorem submit_rejected_witness:
  "fst (handleSubmit None (\<lambda>_. PostRejected (Some (JObj [(js ''detail'', JStr (js ''bad''))])))
       (init_page\<lparr>url := js ''u''\<rparr>))
   = \<lparr>url = js ''u'', loading = False, articles = [], sessionId = None,
      error = Some (error_detail (Some (JObj [(js ''detail'', JStr (js ''bad''))])))\<rparr>"
  using submit_rejected [of "init_page\<lparr>url := js ''u''\<rparr>"
      "\<lambda>_. PostRejected (Some (JObj [(js ''detail'', JStr (js ''bad''))]))" None]
  by (simp add: init_page_def is_js_space_def)

subsection \<open>What a submission leaves behind\<close>

text \<open>
  After \<^verbatim>\<open>handleSubmit\<close> has run, the loading flag is set only if it was set
  before and the input was blank: every submission that reaches the request clears
  it in its \<^verbatim>\<open>finally\<close>, whatever the outcome.
\<close>

theorem submit_clears_loading:
  "loading (fst (handleSubmit env srv st)) \<longleftrightarrow> loading st \<and> list_all is_js_space (url st)"
  by (cases "list_all is_js_space (url st)")
     (auto simp: handleSubmit_def handleSubmit_start_blank handleSubmit_start_nonblank
        handleSubmit_finish_def split: post_outcome.split)

text \<open>
  C7: a submission that does not succeed leaves the session id of an earlier
  successful submission in place: starting the request clears the articles and the
  error, but not \<^verbatim>\<open>sessionId\<close>.
\<close>

theorem failed_submit_keeps_session:
  assumes "\<not> list_all is_js_space (url st)"
    and "\<not> (\<exists>d. srv (generate_request env st) = PostResolved d \<and> success d)"
  shows "sessionId (fst (handleSubmit env srv st)) = sessionId st"
  using assms by (auto simp: handleSubmit_nonblank handleSubmit_finish_def split: post_outcome.split)

theorem failed_submit_keeps_session_witness:
  "sessionId (fst (handleSubmit None (\<lambda>_. PostRejected None)
     (init_page\<lparr>url := js ''u'', sessionId := Some (js ''s1'')\<rparr>))) = Some (js ''s1'')"
  using failed_submit_keeps_session [of "init_page\<lparr>url := js ''u'', sessionId := Some (js ''s1'')\<rparr>"
      "\<lambda>_. PostRejected None" None]
  by (simp add: init_page_def is_js_space_def)

end
