(* ===== verification/Session.thy ===== *)
theory Session
  imports Submit
begin

text \<open>
  The page as a system of events (\<^verbatim>\<open>page.tsx\<close> lines 20--53 and 97--115): the
  user types into the URL field (\<^verbatim>\<open>onChange\<close>, line 106), submits the form
  (\<^verbatim>\<open>onSubmit\<close>, line 97, running the synchronous half of \<^verbatim>\<open>handleSubmit\<close>), and
  a response arrives for one of the POST requests in flight (the asynchronous half).
  A \<open>session\<close> is the page state with the requests in flight, each tagged with the
  order it was issued in. \<open>ui_apply\<close> is one event (\<open>None\<close> when the event cannot
  happen), \<open>ui_run\<close> a sequence of them, \<open>reachable\<close> the states some sequence
  reaches from the initial render. The flag \<open>gated\<close> says whether the submit
  button's \<^verbatim>\<open>disabled={loading}\<close> (line 115) is in force; a disabled default button
  also blocks implicit submission by Enter, so \<open>gated = True\<close> is the page as the
  browser runs it, and \<open>gated = False\<close> is the spec's section 5 scenario of a
  caller that bypasses the button.

  The spec's session machine (Idle, Loading, Error, Ready) is the datatype
  \<open>session_state\<close> with the step relation \<open>spec_step\<close>; \<open>abs_state\<close> reads the
  spec state off the page's five cells. With the gate, every reachable state keeps
  \<open>gated_inv\<close> and every event is a spec step or leaves the spec state unchanged;
  without it, the runs below reach states the spec rules out.
\<close>

record session =
  page :: page_state
  pending :: "(nat \<times> submit_request) list"
  issued :: nat

datatype ui_event =
    TypeUrl jstr
  | SubmitForm
  | Reply nat "submit_request \<Rightarrow> post_outcome"

definition init_session :: session where
  "init_session = \<lparr>page = init_page, pending = [], issued = 0\<rparr>"

fun ui_apply :: "bool \<Rightarrow> jstr option \<Rightarrow> session \<Rightarrow> ui_event \<Rightarrow> session option" where
  "ui_apply gated env s (TypeUrl u) = Some (s\<lparr>page := (page s)\<lparr>url := u\<rparr>\<rparr>)"
| "ui_apply gated env s SubmitForm =
     (if gated \<and> loading (page s) then None
      else (case handleSubmit_start env (page s) of
              None \<Rightarrow> Some s
            | Some (p, rq) \<Rightarrow>
                Some \<lparr>page = p, pending = pending s @ [(issued s, rq)], issued = Suc (issued s)\<rparr>))"
| "ui_apply gated env s (Reply i srv) =
     (case map_of (pending s) i of
        None \<Rightarrow> None
      | Some rq \<Rightarrow>
          Some (s\<lparr>page := handleSubmit_finish (srv rq) (page s),
                  pending := filter (\<lambda>(j, _). j \<noteq> i) (pending s)\<rparr>))"

fun ui_run :: "bool \<Rightarrow> jstr option \<Rightarrow> session \<Rightarrow> ui_event list \<Rightarrow> session option" where
  "ui_run gated env s [] = Some s"
| "ui_run gated env s (e # es) =
     (case ui_apply gated env s e of None \<Rightarrow> None | Some t \<Rightarrow> ui_run gated env t es)"

inductive reachable :: "bool \<Rightarrow> jstr option \<Rightarrow> session \<Rightarrow> bool" for gated env where
  init: "reachable gated env init_session"
| step: "reachable gated env s \<Longrightarrow> ui_apply gated env s e = Some t \<Longrightarrow> reachable gated env t"

datatype session_state = Idle | Loading | Error jval | Ready jstr "NewsArticle list"

inductive spec_step :: "session_state \<Rightarrow> session_state \<Rightarrow> bool" where
  submit: "a \<noteq> Loading \<Longrightarrow> spec_step a Loading"
| succeed: "spec_step Loading (Ready sid arts)"
| fail: "spec_step Loading (Error msg)"

definition abs_state :: "page_state \<Rightarrow> session_state" where
  "abs_state p =
     (if loading p then Loading
      else case error p of
             Some e \<Rightarrow> Error e
           | None \<Rightarrow> (case sessionId p of None \<Rightarrow> Idle | Some sid \<Rightarrow> Ready sid (articles p)))"

definition gated_inv :: "session \<Rightarrow> bool" where
  "gated_inv s \<longleftrightarrow>
     (loading (page s) \<longleftrightarrow> pending s \<noteq> []) \<and> length (pending s) \<le> 1 \<and>
     (loading (page s) \<longrightarrow> error (page s) = None \<and> articles (page s) = []) \<and>
     (error (page s) \<noteq> None \<longrightarrow> articles (page s) = []) \<and>
     list_all (\<lambda>(i, _). Suc i = issued s) (pending s)"

definition ids_ok :: "session \<Rightarrow> bool" where
  "ids_ok s \<longleftrightarrow> distinct (map fst (pending s)) \<and> list_all (\<lambda>(i, _). i < issued s) (pending s)"

definition results_have_session :: "session \<Rightarrow> bool" where
  "results_have_session s \<longleftrightarrow> articles (page s) = [] \<or> sessionId (page s) \<noteq> None"


subsection \<open>The invariant under the gate\<close>

lemma start_Some_page:
  "handleSubmit_start env st = Some (p, rq) \<Longrightarrow>
   p = st\<lparr>loading := True, error := None, articles := []\<rparr>"
  by (simp add: handleSubmit_start_def split: if_splits)

lemma finish_fields:
  "\<not> loading (handleSubmit_finish r st)"
  "error (handleSubmit_finish r st) = None \<Longrightarrow> error st = None"
  "articles (handleSubmit_finish r st) \<noteq> articles st \<Longrightarrow> error (handleSubmit_finish r st) = error st"
  by (auto simp: handleSubmit_finish_def split: post_outcome.splits if_splits)

lemma gated_inv_init: "gated_inv init_session"
  by (simp add: gated_inv_def init_session_def init_page_def)

lemma filter_single: "length xs \<le> 1 \<Longrightarrow> map_of xs i = Some rq \<Longrightarrow> filter (\<lambda>(j, _). j \<noteq> i) xs = []"
  by (cases xs) (auto split: if_splits)

lemma gated_inv_step:
  assumes "gated_inv s" and "ui_apply True env s e = Some t"
  shows "gated_inv t"
proof (cases e)
  case (TypeUrl u)
  with assms show ?thesis by (auto simp: gated_inv_def)
next
  case SubmitForm
  show ?thesis
  proof (cases "handleSubmit_start env (page s)")
    case None
    with assms SubmitForm show ?thesis by (auto split: if_splits)
  next
    case (Some a)
    then obtain p rq where st: "handleSubmit_start env (page s) = Some (p, rq)"
      by (cases a) auto
    with assms(2) SubmitForm have nl: "\<not> loading (page s)"
      and t: "t = \<lparr>page = p, pending = pending s @ [(issued s, rq)], issued = Suc (issued s)\<rparr>"
      by (auto split: if_splits)
    from nl assms(1) have "pending s = []" by (simp add: gated_inv_def)
    with t start_Some_page [OF st] show ?thesis by (simp add: gated_inv_def)
  qed
next
  case (Reply i srv)
  with assms(2) obtain rq where rq: "map_of (pending s) i = Some rq"
    and t: "t = s\<lparr>page := handleSubmit_finish (srv rq) (page s),
                  pending := filter (\<lambda>(j, _). j \<noteq> i) (pending s)\<rparr>"
    by (auto split: option.splits)
  from rq have ne: "pending s \<noteq> []" by auto
  with assms(1) have ld: "loading (page s)" and len: "length (pending s) \<le> 1"
    and clean: "error (page s) = None" "articles (page s) = []"
    by (auto simp: gated_inv_def)
  from len rq have "pending t = []" by (simp add: t filter_single)
  moreover have "\<not> loading (page t)" by (simp add: t finish_fields)
  moreover have "error (page t) \<noteq> None \<longrightarrow> articles (page t) = []"
    using clean by (auto simp: t handleSubmit_finish_def split: post_outcome.splits)
  ultimately show ?thesis by (simp add: gated_inv_def)
qed

lemma reachable_gated_inv: "reachable True env s \<Longrightarrow> gated_inv s"
proof (induction rule: reachable.induct)
  case init
  show ?case by (rule gated_inv_init)
next
  case (step s e t)
  then show ?case by (blast intro: gated_inv_step)
qed

text \<open>
  C8: with the submit button disabled while loading, every reachable state has at
  most one generation request in flight, and the loading flag is set exactly when
  one is.
\<close>

theorem gated_single_flight:
  assumes "reachable True env s"
  shows "length (pending s) \<le> 1 \<and> (loading (page s) \<longleftrightarrow> pending s \<noteq> [])"
  using reachable_gated_inv [OF assms] by (simp add: gated_inv_def)

text \<open>
  C9: with the gate, the error banner and the article list are never shown
  together: a reachable state with an error has no articles.
\<close>

theorem gated_error_excludes_results:
  assumes "reachable True env s" and "error (page s) \<noteq> None"
  shows "articles (page s) = []"
  using reachable_gated_inv [OF assms(1)] assms(2) by (simp add: gated_inv_def)

text \<open>
  C10: with the gate, each event of the page either leaves the spec's session state
  unchanged or is a step of the spec machine (submit from a state other than Loading,
  then success to Ready or failure to Error).
\<close>

theorem gated_refines_spec:
  assumes "reachable True env s" and "ui_apply True env s e = Some t"
  shows "abs_state (page t) = abs_state (page s) \<or> spec_step (abs_state (page s)) (abs_state (page t))"
proof -
  have inv: "gated_inv s" using assms(1) by (rule reachable_gated_inv)
  show ?thesis
  proof (cases e)
    case (TypeUrl u)
    with assms(2) have "page t = (page s)\<lparr>url := u\<rparr>" by auto
    then show ?thesis by (simp add: abs_state_def split: option.split)
  next
    case SubmitForm
    show ?thesis
    proof (cases "handleSubmit_start env (page s)")
      case None
      with assms(2) SubmitForm show ?thesis by (auto split: if_splits)
    next
      case (Some a)
      then obtain p rq where st: "handleSubmit_start env (page s) = Some (p, rq)"
        by (cases a) auto
      with assms(2) SubmitForm have nl: "\<not> loading (page s)" and pt: "page t = p"
        by (auto split: if_splits)
      from pt start_Some_page [OF st] have "loading (page t)" by simp
      moreover from nl have "abs_state (page s) \<noteq> Loading"
        by (auto simp: abs_state_def split: option.splits)
      ultimately show ?thesis by (simp add: abs_state_def spec_step.submit)
    qed
  next
    case (Reply i srv)
    with assms(2) obtain rq where rq: "map_of (pending s) i = Some rq"
      and t: "page t = handleSubmit_finish (srv rq) (page s)"
      by (auto split: option.splits)
    from rq inv have ld: "loading (page s)" and clean: "error (page s) = None"
      by (auto simp: gated_inv_def)
    then have "abs_state (page s) = Loading" by (simp add: abs_state_def)
    moreover have "spec_step Loading (abs_state (page t))"
      using clean
      by (auto simp: t abs_state_def handleSubmit_finish_def
            intro: spec_step.intros split: post_outcome.splits)
    ultimately show ?thesis by simp
  qed
qed


subsection \<open>Runs\<close>

lemma reachable_ui_run:
  "reachable gated env s \<Longrightarrow> ui_run gated env s es = Some t \<Longrightarrow> reachable gated env t"
proof (induction es arbitrary: s)
  case Nil
  then show ?case by simp
next
  case (Cons e es)
  then obtain s' where "ui_apply gated env s e = Some s'" and "ui_run gated env s' es = Some t"
    by (auto split: option.splits)
  with Cons.prems(1) show ?case by (blast intro: Cons.IH reachable.step)
qed

lemmas run_from_init = reachable_ui_run [OF reachable.init]

text \<open>
  C11: with the gate, a loading state always has a request whose response, whatever
  it is, ends the loading and leaves nothing in flight.
\<close>

theorem gated_reply_completes:
  assumes "reachable True env s" and "loading (page s)"
  shows "\<exists>i. \<forall>srv. \<exists>t. ui_apply True env s (Reply i srv) = Some t \<and>
                      \<not> loading (page t) \<and> pending t = []"
proof -
  have inv: "gated_inv s" using assms(1) by (rule reachable_gated_inv)
  with assms(2) obtain i rq where p: "pending s = [(i, rq)]"
    by (auto simp: gated_inv_def length_Suc_conv le_Suc_eq)
  show ?thesis
    by (rule exI [of _ i]) (simp add: p finish_fields)
qed

subsection \<open>Without the gate\<close>

text \<open>
  C17: without the gate, whenever two submissions are in flight, the response that
  arrives last decides the page, even when it belongs to the older submission (numbers
  are issued in submission order): if the newer one's response arrives first and the
  older one's then succeeds, the page shows the older submission's articles and session
  id, whatever the newer response was.
\<close>

theorem ungated_stale_response_wins:
  assumes "map_of (pending s) i = Some rqi" and "map_of (pending s) j = Some rqj" and "i < j"
    and "srv rqi = PostResolved di" and "success di"
  shows "\<exists>t. ui_run False env s [Reply j srv, Reply i srv] = Some t \<and> \<not> loading (page t) \<and>
             articles (page t) = resp_articles di \<and> sessionId (page t) = Some (session_id di)"
proof -
  from assms(3) have "i \<noteq> j" by simp
  then have "map_of (filter (\<lambda>(k, _). k \<noteq> j) (pending s)) i = Some rqi"
    by (simp add: map_of_filter_neq assms(1))
  with assms(2,4,5) show ?thesis by (simp add: handleSubmit_finish_def)
qed

theorem ungated_stale_response_wins_witness:
  "\<exists>s t. ui_run False None init_session [TypeUrl (js ''a''), SubmitForm, TypeUrl (js ''b''), SubmitForm]
           = Some s \<and>
     ui_run False None s
       [Reply 1 (\<lambda>rq. PostResolved \<lparr>success = True,
                 resp_articles = [\<lparr>title = payload_url rq, content = [], key_quote = []\<rparr>],
                 session_id = payload_url rq, resp_url = payload_url rq\<rparr>),
        Reply 0 (\<lambda>rq. PostResolved \<lparr>success = True,
                 resp_articles = [\<lparr>title = payload_url rq, content = [], key_quote = []\<rparr>],
                 session_id = payload_url rq, resp_url = payload_url rq\<rparr>)] = Some t \<and>
     \<not> loading (page t) \<and> articles (page t) = [\<lparr>title = js ''a'', content = [], key_quote = []\<rparr>] \<and>
     sessionId (page t) = Some (js ''a'')"
proof -
  let ?srv = "\<lambda>rq. PostResolved \<lparr>success = True,
                 resp_articles = [\<lparr>title = payload_url rq, content = [], key_quote = []\<rparr>],
                 session_id = payload_url rq, resp_url = payload_url rq\<rparr>"
  define s where "s = the (ui_run False None init_session
                    [TypeUrl (js ''a''), SubmitForm, TypeUrl (js ''b''), SubmitForm])"
  have run: "ui_run False None init_session [TypeUrl (js ''a''), SubmitForm, TypeUrl (js ''b''), SubmitForm]
               = Some s"
    by (simp add: s_def init_session_def init_page_def handleSubmit_start_def generate_request_def
        js_trim_def is_js_space_def)
  have p: "pending s = [(0, GenerateNews (js ''http://localhost:8000/generate-news'') (js ''a'')),
                        (1, GenerateNews (js ''http://localhost:8000/generate-news'') (js ''b''))]"
    by (simp add: s_def init_session_def init_page_def handleSubmit_start_def generate_request_def
        js_trim_def is_js_space_def api_base_def default_api_url_def)
  let ?d = "\<lparr>success = True, resp_articles = [\<lparr>title = js ''a'', content = [], key_quote = []\<rparr>],
                session_id = js ''a'', resp_url = js ''a''\<rparr>"
  have "\<exists>t. ui_run False None s [Reply 1 ?srv, Reply 0 ?srv] = Some t \<and> \<not> loading (page t) \<and>
          articles (page t) = resp_articles ?d \<and> sessionId (page t) = Some (session_id ?d)"
    by (rule ungated_stale_response_wins [where rqi = "GenerateNews (js ''http://localhost:8000/generate-news'') (js ''a'')" and rqj = "GenerateNews (js ''http://localhost:8000/generate-news'') (js ''b'')" and di = ?d])
      (simp_all add: p)
  then have "\<exists>t. ui_run False None s [Reply 1 ?srv, Reply 0 ?srv] = Some t \<and> \<not> loading (page t) \<and>
          articles (page t) = [\<lparr>title = js ''a'', content = [], key_quote = []\<rparr>] \<and>
          sessionId (page t) = Some (js ''a'')"
    by simp
  with run show ?thesis by blast
qed

text \<open>
  C18: without the gate, the loading flag can be cleared while a request is still in
  flight (the first response's \<^verbatim>\<open>finally\<close> clears it for both).
\<close>

theorem ungated_loading_cleared_in_flight:
  "\<exists>s. reachable False None s \<and> \<not> loading (page s) \<and> pending s \<noteq> []"
proof -
  let ?srv = "\<lambda>rq :: submit_request. PostRejected None"
  let ?es = "[TypeUrl (js ''a''), SubmitForm, SubmitForm, Reply 0 ?srv]"
  obtain t where run: "ui_run False None init_session ?es = Some t"
    and "\<not> loading (page t)" and "pending t \<noteq> []"
    by (simp add: init_session_def init_page_def handleSubmit_start_def handleSubmit_finish_def
        generate_request_def js_trim_def is_js_space_def)
  moreover from run have "reachable False None t" by (rule run_from_init)
  ultimately show ?thesis by blast
qed

text \<open>
  C19: without the gate, a reachable state shows an error and articles at once,
  which the spec's single state slot excludes.
\<close>

theorem ungated_error_with_results:
  "\<exists>s. reachable False None s \<and> error (page s) \<noteq> None \<and> articles (page s) \<noteq> []"
proof -
  let ?ok = "\<lambda>rq :: submit_request. PostResolved \<lparr>success = True,
               resp_articles = [\<lparr>title = js ''X'', content = [], key_quote = []\<rparr>],
               session_id = js ''s1'', resp_url = payload_url rq\<rparr>"
  let ?es = "[TypeUrl (js ''a''), SubmitForm, SubmitForm, Reply 0 ?ok,
              Reply 1 (\<lambda>rq. PostRejected None)]"
  obtain t where run: "ui_run False None init_session ?es = Some t"
    and "error (page t) \<noteq> None" and "articles (page t) \<noteq> []"
    by (simp add: init_session_def init_page_def handleSubmit_start_def handleSubmit_finish_def
        generate_request_def js_trim_def is_js_space_def)
  moreover from run have "reachable False None t" by (rule run_from_init)
  ultimately show ?thesis by blast
qed

theorem gated_single_flight_witness:
  "reachable True None (the (ui_run True None init_session [TypeUrl (js ''u''), SubmitForm])) \<and>
   length (pending (the (ui_run True None init_session [TypeUrl (js ''u''), SubmitForm]))) \<le> 1 \<and>
   loading (page (the (ui_run True None init_session [TypeUrl (js ''u''), SubmitForm])))"
proof -
  let ?s = "the (ui_run True None init_session [TypeUrl (js ''u''), SubmitForm])"
  have run: "ui_run True None init_session [TypeUrl (js ''u''), SubmitForm] = Some ?s"
    by (simp add: init_session_def init_page_def handleSubmit_start_def js_trim_def is_js_space_def)
  then have r: "reachable True None ?s" by (rule run_from_init)
  have "loading (page ?s)"
    by (simp add: init_session_def init_page_def handleSubmit_start_def js_trim_def is_js_space_def)
  with r gated_single_flight [OF r] show ?thesis by blast
qed

theorem gated_error_excludes_results_witness:
  "reachable True None
     \<lparr>page = \<lparr>url = js ''u'', loading = False, articles = [], sessionId = None,
              error = Some (error_detail None)\<rparr>, pending = [], issued = 1\<rparr> \<and>
   articles (page \<lparr>page = \<lparr>url = js ''u'', loading = False, articles = [], sessionId = None,
              error = Some (error_detail None)\<rparr>, pending = [], issued = 1\<rparr>) = []"
proof -
  let ?s = "\<lparr>page = \<lparr>url = js ''u'', loading = False, articles = [], sessionId = None,
              error = Some (error_detail None)\<rparr>, pending = [], issued = 1\<rparr>"
  have "ui_run True None init_session
          [TypeUrl (js ''u''), SubmitForm, Reply 0 (\<lambda>_. PostRejected None)] = Some ?s"
    by (simp add: init_session_def init_page_def handleSubmit_start_def handleSubmit_finish_def
        generate_request_def js_trim_def is_js_space_def)
  then have r: "reachable True None ?s" by (rule run_from_init)
  have "error (page ?s) \<noteq> None" by simp
  with r gated_error_excludes_results [OF r] show ?thesis by blast
qed

theorem gated_refines_spec_witness:
  "\<exists>s t. ui_run True None init_session [TypeUrl (js ''u''), SubmitForm] = Some s \<and>
     ui_apply True None s (Reply 0 (\<lambda>rq. PostResolved \<lparr>success = True,
               resp_articles = [\<lparr>title = js ''X'', content = [], key_quote = []\<rparr>],
               session_id = js ''s1'', resp_url = payload_url rq\<rparr>)) = Some t \<and>
     (abs_state (page t) = abs_state (page s) \<or> spec_step (abs_state (page s)) (abs_state (page t)))"
proof -
  let ?srv = "\<lambda>rq :: submit_request. PostResolved \<lparr>success = True,
               resp_articles = [\<lparr>title = js ''X'', content = [], key_quote = []\<rparr>],
               session_id = js ''s1'', resp_url = payload_url rq\<rparr>"
  let ?s = "\<lparr>page = \<lparr>url = js ''u'', loading = True, articles = [], sessionId = None,
              error = None\<rparr>,
            pending = [(0, GenerateNews (js ''http://localhost:8000/generate-news'') (js ''u''))],
            issued = 1\<rparr>"
  let ?t = "\<lparr>page = \<lparr>url = js ''u'', loading = False,
              articles = [\<lparr>title = js ''X'', content = [], key_quote = []\<rparr>],
              sessionId = Some (js ''s1''), error = None\<rparr>, pending = [], issued = 1\<rparr>"
  have run: "ui_run True None init_session [TypeUrl (js ''u''), SubmitForm] = Some ?s"
    by (simp add: init_session_def init_page_def handleSubmit_start_def generate_request_def
        api_base_def default_api_url_def js_trim_def is_js_space_def)
  then have r: "reachable True None ?s" by (rule run_from_init)
  have e: "ui_apply True None ?s (Reply 0 ?srv) = Some ?t"
    by (simp add: handleSubmit_finish_def)
  from gated_refines_spec [OF r e] run e show ?thesis by blast
qed

theorem gated_reply_completes_witness:
  "\<exists>i. \<forall>srv. \<exists>t. ui_apply True None
     \<lparr>page = \<lparr>url = js ''u'', loading = True, articles = [], sessionId = None, error = None\<rparr>,
      pending = [(0, GenerateNews (js ''http://localhost:8000/generate-news'') (js ''u''))],
      issued = 1\<rparr> (Reply i srv) = Some t \<and> \<not> loading (page t) \<and> pending t = []"
proof -
  let ?s = "\<lparr>page = \<lparr>url = js ''u'', loading = True, articles = [], sessionId = None,
              error = None\<rparr>,
            pending = [(0, GenerateNews (js ''http://localhost:8000/generate-news'') (js ''u''))],
            issued = 1\<rparr>"
  have "ui_run True None init_session [TypeUrl (js ''u''), SubmitForm] = Some ?s"
    by (simp add: init_session_def init_page_def handleSubmit_start_def generate_request_def
        api_base_def default_api_url_def js_trim_def is_js_space_def)
  then have r: "reachable True None ?s" by (rule run_from_init)
  have "loading (page ?s)" by simp
  from gated_reply_completes [OF r this] show ?thesis .
qed

subsection \<open>Responses under the gate, and sessions of shown results\<close>

lemma results_have_session_step:
  assumes "results_have_session s" and "ui_apply gated env s e = Some t"
  shows "results_have_session t"
  using assms
  by (cases e)
     (auto simp: results_have_session_def handleSubmit_start_def handleSubmit_finish_def
        split: option.splits if_splits post_outcome.splits)

lemma reachable_results_have_session: "reachable gated env s \<Longrightarrow> results_have_session s"
proof (induction rule: reachable.induct)
  case init
  show ?case by (simp add: results_have_session_def init_session_def init_page_def)
next
  case (step s e t)
  then show ?case by (blast intro: results_have_session_step)
qed

text \<open>
  With the gate, every response that arrives belongs to the most recent
  submission: the page already meets the staleness rule that the spec's section 5
  recommends adding (discard responses whose request is not the latest).
\<close>

theorem gated_reply_is_latest:
  assumes "reachable True env s" and "map_of (pending s) i = Some rq"
  shows "Suc i = issued s"
proof -
  have "gated_inv s" using assms(1) by (rule reachable_gated_inv)
  then have "list_all (\<lambda>(j, _). Suc j = issued s) (pending s)" by (simp add: gated_inv_def)
  moreover from assms(2) have "(i, rq) \<in> set (pending s)" by (rule map_of_SomeD)
  ultimately show ?thesis by (auto simp: list_all_iff)
qed

theorem gated_reply_is_latest_witness:
  "Suc 0 = issued \<lparr>page = \<lparr>url = js ''u'', loading = True, articles = [], sessionId = None,
                           error = None\<rparr>,
                    pending = [(0, GenerateNews (js ''http://localhost:8000/generate-news'') (js ''u''))],
                    issued = 1\<rparr>"
proof -
  let ?s = "\<lparr>page = \<lparr>url = js ''u'', loading = True, articles = [], sessionId = None,
              error = None\<rparr>,
            pending = [(0, GenerateNews (js ''http://localhost:8000/generate-news'') (js ''u''))],
            issued = 1\<rparr>"
  have "ui_run True None init_session [TypeUrl (js ''u''), SubmitForm] = Some ?s"
    by (simp add: init_session_def init_page_def handleSubmit_start_def generate_request_def
        api_base_def default_api_url_def js_trim_def is_js_space_def)
  then have r: "reachable True None ?s" by (rule run_from_init)
  have "map_of (pending ?s) 0 =
          Some (GenerateNews (js ''http://localhost:8000/generate-news'') (js ''u''))" by simp
  from gated_reply_is_latest [OF r this] show ?thesis .
qed

text \<open>
  With or without the gate, whenever articles are shown a session id is set, so
  the download buttons of a shown card never meet the no-session guard with a null
  session id.
\<close>

theorem shown_results_have_session:
  assumes "reachable gated env s" and "articles (page s) \<noteq> []"
  shows "\<exists>sid. sessionId (page s) = Some sid"
  using reachable_results_have_session [OF assms(1)] assms(2)
  by (auto simp: results_have_session_def)

theorem shown_results_have_session_witness:
  "\<exists>sid. sessionId (page \<lparr>page = \<lparr>url = js ''u'', loading = False,
              articles = [\<lparr>title = js ''X'', content = [], key_quote = []\<rparr>],
              sessionId = Some (js ''s1''), error = None\<rparr>, pending = [], issued = 1\<rparr>) = Some sid"
proof -
  let ?t = "\<lparr>page = \<lparr>url = js ''u'', loading = False,
              articles = [\<lparr>title = js ''X'', content = [], key_quote = []\<rparr>],
              sessionId = Some (js ''s1''), error = None\<rparr>, pending = [], issued = 1\<rparr>"
  let ?srv = "\<lambda>rq :: submit_request. PostResolved \<lparr>success = True,
               resp_articles = [\<lparr>title = js ''X'', content = [], key_quote = []\<rparr>],
               session_id = js ''s1'', resp_url = payload_url rq\<rparr>"
  have "ui_run False None init_session [TypeUrl (js ''u''), SubmitForm, Reply 0 ?srv] = Some ?t"
    by (simp add: init_session_def init_page_def handleSubmit_start_def handleSubmit_finish_def
        generate_request_def js_trim_def is_js_space_def)
  then have r: "reachable False None ?t" by (rule run_from_init)
  have "articles (page ?t) \<noteq> []" by simp
  from shown_results_have_session [OF r this] show ?thesis .
qed

subsection \<open>Every order of the outstanding responses completes\<close>

lemma ids_ok_step:
  assumes "ids_ok s" and "ui_apply gated env s e = Some t"
  shows "ids_ok t"
proof (cases e)
  case (TypeUrl u)
  with assms show ?thesis by (auto simp: ids_ok_def)
next
  case SubmitForm
  with assms show ?thesis
    by (fastforce simp: ids_ok_def list_all_iff split: if_splits option.splits)
next
  case (Reply i srv)
  with assms show ?thesis
    by (auto simp: ids_ok_def list_all_iff distinct_map_filter split: option.splits)
qed

lemma reachable_ids_ok: "reachable gated env s \<Longrightarrow> ids_ok s"
proof (induction rule: reachable.induct)
  case init
  show ?case by (simp add: ids_ok_def init_session_def)
next
  case (step s e t)
  then show ?case by (blast intro: ids_ok_step)
qed

lemma ui_run_opt_run: "ui_run gated env s es = opt_run (ui_apply gated env) s es"
  by (induction es arbitrary: s) (simp_all split: option.split)

text \<open>
  C12: with or without the gate, from every reachable state the responses to the
  requests in flight, arriving in any order, can all be processed: each reply finds
  its request, and after the last one nothing is in flight and the loading flag is
  cleared.
\<close>

theorem responses_in_any_order_complete:
  assumes "reachable gated env s" and "mset ids = mset (map fst (pending s))"
  shows "\<exists>t. ui_run gated env s (map (\<lambda>i. Reply i srv) ids) = Some t \<and> pending t = [] \<and>
             (ids \<noteq> [] \<longrightarrow> \<not> loading (page t))"
proof -
  have "ids_ok s" using assms(1) by (rule reachable_ids_ok)
  then have d0: "distinct (map fst (pending s))" by (simp add: ids_ok_def)
  have "\<exists>t. opt_run (ui_apply gated env) s (map (\<lambda>i. Reply i srv) ids) = Some t \<and> pending t = [] \<and>
            ([] :: unit list) = [] @ concat (map (\<lambda>k. []) ids) \<and> (ids \<noteq> [] \<longrightarrow> \<not> loading (page t))"
    by (rule drain_keys [where K = pending and f = "ui_apply gated env" and ev = "\<lambda>i. Reply i srv"
          and R = "\<lambda>_ t. \<not> loading (page t)" and L = "\<lambda>_. []" and out = "\<lambda>_. []"])
      (simp_all add: finish_fields d0 assms(2))
  then show ?thesis by (simp add: ui_run_opt_run)
qed

theorem responses_in_any_order_complete_witness:
  "\<exists>t. ui_run False None
        \<lparr>page = \<lparr>url = js ''a'', loading = True, articles = [], sessionId = None, error = None\<rparr>,
         pending = [(0, GenerateNews (js ''http://localhost:8000/generate-news'') (js ''a'')),
                    (1, GenerateNews (js ''http://localhost:8000/generate-news'') (js ''a''))],
         issued = 2\<rparr>
        (map (\<lambda>i. Reply i (\<lambda>_. PostRejected None)) [1, 0]) = Some t \<and> pending t = [] \<and>
      ([1, 0] \<noteq> ([] :: nat list) \<longrightarrow> \<not> loading (page t))"
proof -
  let ?s = "\<lparr>page = \<lparr>url = js ''a'', loading = True, articles = [], sessionId = None, error = None\<rparr>,
         pending = [(0, GenerateNews (js ''http://localhost:8000/generate-news'') (js ''a'')),
                    (1, GenerateNews (js ''http://localhost:8000/generate-news'') (js ''a''))],
         issued = 2\<rparr>"
  have "ui_run False None init_session [TypeUrl (js ''a''), SubmitForm, SubmitForm] = Some ?s"
    by (simp add: init_session_def init_page_def handleSubmit_start_def generate_request_def
        api_base_def default_api_url_def js_trim_def is_js_space_def)
  then have r: "reachable False None ?s" by (rule run_from_init)
  have "mset [1, 0] = mset (map fst (pending ?s))" by (simp add: add_mset_commute)
  from responses_in_any_order_complete [OF r this, of "\<lambda>_. PostRejected None"] show ?thesis .
qed

end
