(* ===== verification/View.thy ===== *)
theory View
  imports Model
begin

text \<open>
  What the component \<^verbatim>\<open>Home\<close> renders (\<^verbatim>\<open>page.tsx\<close> lines 83--202), reduced
  to the parts that depend on the state: the submit button's \<^verbatim>\<open>disabled\<close> flag and
  label (lines 113--129), the error banner (lines 134--141), the loading panel (lines
  144--151) and one card per article (lines 154--200) with its title, content,
  optional key quote and the arguments its two buttons pass to
  \<^verbatim>\<open>downloadArticle\<close>. Class names, icons and layout are left out. React renders a
  string, a number, a boolean, \<^verbatim>\<open>null\<close> or an array of such as a child, and throws
  on a plain object; \<open>render\<close> is \<open>None\<close> when the error banner would make it throw.
  A falsy number in \<^verbatim>\<open>error\<close> would print as text next to the banner's
  \<^verbatim>\<open>&&\<close>; the handlers never store one (\<open>error_detail\<close> is truthy).
\<close>

record card =
  card_index :: nat
  card_title :: jstr
  card_content :: jstr
  card_quote :: "jstr option"
  card_downloads :: "(nat \<times> jstr \<times> jstr) list"

record view =
  submit_disabled :: bool
  submit_label :: jstr
  error_banner :: "jval option"
  loading_panel :: bool
  cards :: "card list"

fun react_child_ok :: "jval \<Rightarrow> bool" where
  "react_child_ok (JObj _) = False"
| "react_child_ok (JArr vs) = list_all react_child_ok vs"
| "react_child_ok _ = True"

definition article_card :: "nat \<Rightarrow> NewsArticle \<Rightarrow> card" where
  "article_card index article =
     \<lparr>card_index = index, card_title = title article, card_content = content article,
      card_quote = (if key_quote article \<noteq> [] then Some (key_quote article) else None),
      card_downloads = [(index, title article, js ''txt''), (index, title article, js ''docx'')]\<rparr>"

definition shown_error :: "page_state \<Rightarrow> jval option" where
  "shown_error st = (case error st of Some e \<Rightarrow> if js_truthy e then Some e else None | None \<Rightarrow> None)"

definition render :: "page_state \<Rightarrow> view option" where
  "render st =
     (if (case shown_error st of Some e \<Rightarrow> \<not> react_child_ok e | None \<Rightarrow> False) then None
      else Some \<lparr>submit_disabled = loading st,
              submit_label = (if loading st then js ''Processing podcast...''
                              else js ''Generate News Articles''),
              error_banner = shown_error st,
              loading_panel = loading st,
              cards = (if 0 < length (articles st)
                       then map2 article_card [0..<length (articles st)] (articles st)
                       else [])\<rparr>)"

lemma render_card_nth:
  assumes "render st = Some v" and "i < length (articles st)"
  shows "length (cards v) = length (articles st) \<and> cards v ! i = article_card i (articles st ! i)"
  using assms by (auto simp: render_def split: option.splits if_splits)

lemma render_controls:
  assumes "render st = Some v"
  shows "submit_disabled v = loading st \<and> loading_panel v = loading st \<and>
         error_banner v = (case error st of Some e \<Rightarrow> if js_truthy e then Some e else None | None \<Rightarrow> None)"
  using assms by (auto simp: render_def shown_error_def split: option.splits if_splits)

text \<open>
  When the page renders, it shows one card per article, in order; card \<open>i\<close> shows the title and content of article \<open>i\<close>, and its two buttons download index \<open>i\<close> with that article's title, as \<^verbatim>\<open>txt\<close> and as \<^verbatim>\<open>docx\<close>.
\<close>

theorem render_cards:
  assumes "render st = Some v" and "i < length (articles st)"
  shows "length (cards v) = length (articles st) \<and>
         card_title (cards v ! i) = title (articles st ! i) \<and>
         card_content (cards v ! i) = content (articles st ! i) \<and>
         card_downloads (cards v ! i) =
           [(i, title (articles st ! i), js ''txt''), (i, title (articles st ! i), js ''docx'')]"
  using render_card_nth [OF assms] by (simp add: article_card_def)

theorem render_cards_witness:
  "\<exists>v. render (init_page\<lparr>articles := [\<lparr>title = js ''T'', content = js ''C'', key_quote = []\<rparr>]\<rparr>)
         = Some v \<and>
       card_downloads (cards v ! 0) = [(0, js ''T'', js ''txt''), (0, js ''T'', js ''docx'')]"
proof -
  let ?st = "init_page\<lparr>articles := [\<lparr>title = js ''T'', content = js ''C'', key_quote = []\<rparr>]\<rparr>"
  obtain v where v: "render ?st = Some v"
    by (simp add: render_def shown_error_def init_page_def)
  have "0 < length (articles ?st)" by simp
  from render_cards [OF v this] v show ?thesis by auto
qed

end
