(* ===== verification/Download.thy ===== *)
theory Download
  imports Model
begin

text \<open>
  The download handler \<^verbatim>\<open>downloadArticle\<close> (\<^verbatim>\<open>page.tsx\<close> lines 55--81),
  split at its \<^verbatim>\<open>await\<close> as \<open>handleSubmit\<close> is: \<open>downloadArticle_start\<close> is
  the guard on \<^verbatim>\<open>sessionId\<close> and the URL of the GET (lines 56--61), and yields what
  the rest of the handler closes over (\<open>dl_request\<close>: the URL, the title and the
  format); \<open>downloadArticle_finish\<close> is the code after the \<^verbatim>\<open>await\<close> (lines
  65--80) on the GET's outcome; \<open>downloadArticle\<close> runs one after the other. Its
  effects on the outside world are a list of \<open>dl_effect\<close>s in the order the code
  performs them: the GET of the artifact (line 60), the Blob and its object URL
  (lines 65--70), the temporary anchor with the derived filename appended to
  \<^verbatim>\<open>document.body\<close> (lines 71--74), the click that saves the file, the removal of
  the anchor, the release of the object URL (lines 75--77), and the
  \<^verbatim>\<open>console.error\<close> of the \<^verbatim>\<open>catch\<close> (line 79). The artifact service is a
  function from URLs to GET outcomes; \<open>body\<close> says whether \<^verbatim>\<open>document.body\<close>
  exists (it is \<^verbatim>\<open>null\<close> in a document without a body, and \<^verbatim>\<open>appendChild\<close> then
  throws). The page state is not an output: the handler never changes it.

  The filename (line 73) is the two global replaces of \<open>JsString\<close>;
  \<open>download_filename\<close> is proved equal to the spec's wording (keep ASCII letters,
  digits and white space, then turn each run of white space into one underscore).
  The service's route \<^verbatim>\<open>/download-article/{session_id}/{article_index}/{format}\<close>
  is not among the sources; \<open>parse_download_route\<close> reads a URL the way the spec
  describes the route (path up to \<^verbatim>\<open>?\<close> or \<^verbatim>\<open>#\<close>, segments split at
  \<^verbatim>\<open>/\<close>, the index in decimal; percent-decoding is not modelled), so that the URL
  the page builds can be checked to reach the right article.
\<close>

datatype dl_effect =
    HttpGet jstr
  | CreateObjectURL "8 word list" jstr
  | AppendAnchor jstr
  | ClickAnchor
  | RemoveAnchor
  | RevokeObjectURL
  | LogError

definition docx_mime :: jstr where
  "docx_mime = js ''application/vnd.openxmlformats-officedocument.wordprocessingml.document''"

definition blob_type :: "jstr \<Rightarrow> jstr" where
  "blob_type format = (if format = js ''docx'' then docx_mime else js ''text/plain'')"

definition strip_title :: "jstr \<Rightarrow> jstr" where
  "strip_title t = re_replace_all (char_class (\<lambda>c. \<not> (is_ascii_alnum c \<or> is_js_space c))) [] t"

definition underscore_spaces :: "jstr \<Rightarrow> jstr" where
  "underscore_spaces t = re_replace_all (class_plus is_js_space) (js ''_'') t"

definition download_filename :: "jstr \<Rightarrow> jstr \<Rightarrow> jstr" where
  "download_filename ttl format = underscore_spaces (strip_title ttl) @ js ''.'' @ format"

definition download_url :: "jstr \<Rightarrow> jstr \<Rightarrow> nat \<Rightarrow> jstr \<Rightarrow> jstr" where
  "download_url api sid idx format =
     api @ js ''/download-article/'' @ sid @ js ''/'' @ js_nat_str idx @ js ''/'' @ format"

record dl_request =
  dl_url :: jstr
  dl_title :: jstr
  dl_format :: jstr

definition downloadArticle_start ::
    "jstr option \<Rightarrow> page_state \<Rightarrow> nat \<Rightarrow> jstr \<Rightarrow> jstr \<Rightarrow> dl_request option" where
  "downloadArticle_start env st articleIndex ttl format =
     (case sessionId st of
        None \<Rightarrow> None
      | Some sid \<Rightarrow>
          if sid = [] then None
          else Some \<lparr>dl_url = download_url (api_base env) sid articleIndex format,
                     dl_title = ttl, dl_format = format\<rparr>)"

definition downloadArticle_finish :: "get_outcome \<Rightarrow> bool \<Rightarrow> dl_request \<Rightarrow> dl_effect list" where
  "downloadArticle_finish r body rq =
     (case r of
        GetRejected \<Rightarrow> [LogError]
      | GetResolved bytes \<Rightarrow>
          CreateObjectURL bytes (blob_type (dl_format rq)) #
          (if body
           then [AppendAnchor (download_filename (dl_title rq) (dl_format rq)), ClickAnchor,
                 RemoveAnchor, RevokeObjectURL]
           else [LogError]))"

definition downloadArticle ::
    "jstr option \<Rightarrow> (jstr \<Rightarrow> get_outcome) \<Rightarrow> bool \<Rightarrow> page_state \<Rightarrow> nat \<Rightarrow> jstr \<Rightarrow> jstr
     \<Rightarrow> dl_effect list" where
  "downloadArticle env srv body st articleIndex ttl format =
     (case downloadArticle_start env st articleIndex ttl format of
        None \<Rightarrow> []
      | Some rq \<Rightarrow> HttpGet (dl_url rq) # downloadArticle_finish (srv (dl_url rq)) body rq)"

definition segment_safe :: "jstr \<Rightarrow> bool" where
  "segment_safe s \<longleftrightarrow> list_all (\<lambda>c. c \<noteq> 0x2F \<and> c \<noteq> 0x3F \<and> c \<noteq> 0x23) s"

definition route_path :: "jstr \<Rightarrow> jstr" where
  "route_path u = takeWhile (\<lambda>c. c \<noteq> 0x3F \<and> c \<noteq> 0x23) u"

definition parse_download_route :: "jstr \<Rightarrow> jstr \<Rightarrow> (jstr \<times> nat \<times> jstr) option" where
  "parse_download_route api u =
     (let p = api @ js ''/download-article/'' in
      if take (length p) u \<noteq> p then None
      else (case split_on 0x2F (route_path (drop (length p) u)) of
              [sid, i, f] \<Rightarrow> map_option (\<lambda>n. (sid, n, f)) (parse_dec i)
            | _ \<Rightarrow> None))"

lemmas downloadArticle_defs = downloadArticle_def downloadArticle_start_def downloadArticle_finish_def

declare downloadArticle_defs [page_simps]

subsection \<open>The filename\<close>

lemma concat_map_drop_class: "concat (map (\<lambda>c. if P c then [] else [c]) s) = filter (\<lambda>c. \<not> P c) s"
  by (induction s) auto

lemma strip_title_filter:
  "strip_title t = filter (\<lambda>c. is_ascii_alnum c \<or> is_js_space c) t"
  by (simp add: strip_title_def re_replace_char_class concat_map_drop_class)

lemma underscore_spaces_collapse:
  "underscore_spaces t = collapse_runs is_js_space (js ''_'') t"
  by (simp add: underscore_spaces_def re_replace_class_plus)

lemma set_collapse_runs: "set (collapse_runs P r s) \<subseteq> {c \<in> set s. \<not> P c} \<union> set r"
  by (induction P r s rule: collapse_runs.induct) (auto dest: set_dropWhileD)

lemma collapse_runs_hd:
  "collapse_runs P r s \<noteq> [] \<Longrightarrow> r \<noteq> [] \<Longrightarrow>
   hd (collapse_runs P r s) = (if P (hd s) then hd r else hd s)"
  by (cases s) auto

lemma hd_dropWhile_not: "dropWhile P xs \<noteq> [] \<Longrightarrow> \<not> P (hd (dropWhile P xs))"
  by (simp add: hd_dropWhile)

lemma collapse_runs_no_double:
  "\<not> P u \<Longrightarrow> u \<notin> set s \<Longrightarrow> \<not> sublist [u, u] (collapse_runs P [u] s)"
proof (induction P "[u]" s rule: collapse_runs.induct)
  case (1 P)
  then show ?case by simp
next
  case (2 P c cs)
  show ?case
  proof (cases "P c")
    case True
    let ?d = "dropWhile P cs"
    have ih: "\<not> sublist [u, u] (collapse_runs P [u] ?d)"
      using 2 True by (auto dest: set_dropWhileD)
    have "collapse_runs P [u] ?d = [] \<or> hd (collapse_runs P [u] ?d) \<noteq> u"
    proof (cases "?d")
      case Nil
      show ?thesis by (simp only: Nil collapse_runs.simps(1) simp_thms)
    next
      case (Cons d ds)
      then have "\<not> P d" using hd_dropWhile_not [of P cs] by simp
      moreover have "d \<noteq> u" using Cons "2.prems"(2) set_dropWhileD [of d P cs] by auto
      ultimately show ?thesis by (simp only: Cons collapse_runs.simps(2)) simp
    qed
    with ih True show ?thesis
      by (auto simp: sublist_Cons_right prefix_def)
  next
    case False
    with 2 have "\<not> sublist [u, u] (collapse_runs P [u] cs)" by simp
    moreover have "c \<noteq> u" using "2.prems"(2) by auto
    ultimately show ?thesis using False by (simp add: sublist_Cons_right)
  qed
qed

lemma length_collapse_runs: "length r \<le> 1 \<Longrightarrow> length (collapse_runs P r s) \<le> length s"
proof (induction P r s rule: collapse_runs.induct)
  case (1 P r)
  then show ?case by simp
next
  case (2 P r c cs)
  show ?case
  proof (cases "P c")
    case True
    with 2 have "length (collapse_runs P r (dropWhile P cs)) \<le> length (dropWhile P cs)" by simp
    also have "\<dots> \<le> length cs" by (rule length_dropWhile_le)
    finally show ?thesis using True "2.prems" by simp
  next
    case False
    with 2 show ?thesis by simp
  qed
qed

text \<open>
  C24: the filename the page derives from a title with its two global replaces is the spec's rule: keep the ASCII letters, digits and white space of the title, replace each maximal run of white space by one underscore, and append a dot and the format.
\<close>

theorem filename_spec_equiv:
  "download_filename ttl format =
     collapse_runs is_js_space (js ''_'') (filter (\<lambda>c. is_ascii_alnum c \<or> is_js_space c) ttl)
     @ js ''.'' @ format"
  by (simp add: download_filename_def strip_title_filter underscore_spaces_collapse)


text \<open>
  C25: the base of every derived filename consists of ASCII letters, digits and underscores only, and never holds two underscores in a row.
\<close>

theorem filename_base_wellformed:
  "list_all (\<lambda>c. is_ascii_alnum c \<or> c = 0x5F) (underscore_spaces (strip_title ttl)) \<and>
   \<not> sublist (js ''__'') (underscore_spaces (strip_title ttl))"
proof
  let ?f = "filter (\<lambda>c. is_ascii_alnum c \<or> is_js_space c) ttl"
  have "set (collapse_runs is_js_space (js ''_'') ?f) \<subseteq> {c \<in> set ?f. \<not> is_js_space c} \<union> {0x5F}"
    using set_collapse_runs [of is_js_space "js ''_''" ?f] by simp
  then show "list_all (\<lambda>c. is_ascii_alnum c \<or> c = 0x5F) (underscore_spaces (strip_title ttl))"
    by (auto simp: list_all_iff strip_title_filter underscore_spaces_collapse)
next
  let ?f = "filter (\<lambda>c. is_ascii_alnum c \<or> is_js_space c) ttl"
  have u: "\<not> is_js_space 0x5F" "0x5F \<notin> set ?f" by (auto simp: is_js_space_def is_ascii_alnum_def)
  have "\<not> sublist [0x5F, 0x5F] (collapse_runs is_js_space [0x5F] ?f)"
    using u by (rule collapse_runs_no_double)
  then show "\<not> sublist (js ''__'') (underscore_spaces (strip_title ttl))"
    by (simp add: strip_title_filter underscore_spaces_collapse)
qed

text \<open>
  The base of a derived filename is never longer than the title it comes from.
\<close>

theorem filename_base_length: "length (underscore_spaces (strip_title ttl)) \<le> length ttl"
proof -
  have "length (collapse_runs is_js_space (js ''_'')
          (filter (\<lambda>c. is_ascii_alnum c \<or> is_js_space c) ttl))
        \<le> length (filter (\<lambda>c. is_ascii_alnum c \<or> is_js_space c) ttl)"
    by (rule length_collapse_runs) simp
  also have "\<dots> \<le> length ttl" by (rule length_filter_le)
  finally show ?thesis by (simp add: strip_title_filter underscore_spaces_collapse)
qed

text \<open>
  Two titles that differ only in characters the first replace removes get the same filename (the spec accepts this collision); \<^verbatim>\<open>Fed Raises Rates!\<close> and \<^verbatim>\<open>Fed Raises Rates\<close> are an instance.
\<close>

theorem filename_punctuation_collision:
  assumes "filter (\<lambda>c. is_ascii_alnum c \<or> is_js_space c) t1 =
           filter (\<lambda>c. is_ascii_alnum c \<or> is_js_space c) t2"
  shows "download_filename t1 format = download_filename t2 format"
  using assms by (simp add: download_filename_def strip_title_filter)

theorem filename_punctuation_collision_witness:
  "download_filename (js ''Fed Raises Rates!'') (js ''txt'') =
   download_filename (js ''Fed Raises Rates'') (js ''txt'')"
  by (rule filename_punctuation_collision) (simp add: is_ascii_alnum_def is_js_space_def)

subsection \<open>The effects of a download\<close>

lemma downloadArticle_session:
  "sessionId st = Some sid \<Longrightarrow> sid \<noteq> [] \<Longrightarrow>
   downloadArticle env srv body st i ttl format =
     HttpGet (download_url (api_base env) sid i format) #
     (case srv (download_url (api_base env) sid i format) of
        GetRejected \<Rightarrow> [LogError]
      | GetResolved bytes \<Rightarrow>
          CreateObjectURL bytes (blob_type format) #
          (if body then [AppendAnchor (download_filename ttl format), ClickAnchor, RemoveAnchor,
                         RevokeObjectURL]
           else [LogError]))"
  by (simp add: downloadArticle_defs split: get_outcome.split)

text \<open>
  C26: with no session id, or an empty one (both falsy), a download does nothing: no request, no file, no error.
\<close>

theorem download_no_session:
  assumes "sessionId st = None \<or> sessionId st = Some []"
  shows "downloadArticle env srv body st i ttl format = []"
  using assms by (auto simp: downloadArticle_defs)

theorem download_no_session_witness:
  "downloadArticle None (\<lambda>_. GetRejected) True init_page 0 (js ''X'') (js ''txt'') = []"
  by (rule download_no_session) (simp add: init_page_def)

text \<open>
  C27: with a session, a download issues exactly one GET, to \<^verbatim>\<open>${apiUrl}/download-article/${sessionId}/${articleIndex}/${format}\<close>, as its first effect; nothing is retried.
\<close>

theorem download_single_get:
  assumes "sessionId st = Some sid" and "sid \<noteq> []"
  shows "\<exists>rest. downloadArticle env srv body st i ttl format =
                  HttpGet (download_url (api_base env) sid i format) # rest \<and>
                (\<forall>v. HttpGet v \<notin> set rest)"
  using assms by (simp add: downloadArticle_session split: get_outcome.split)

theorem download_single_get_witness:
  "\<exists>rest. downloadArticle None (\<lambda>_. GetRejected) True (init_page\<lparr>sessionId := Some (js ''s1'')\<rparr>)
            0 (js ''X'') (js ''txt'') =
          HttpGet (download_url (api_base None) (js ''s1'') 0 (js ''txt'')) # rest \<and>
          (\<forall>v. HttpGet v \<notin> set rest)"
  by (rule download_single_get) simp_all

text \<open>
  C28: when the GET succeeds and the document has a body, the page wraps the returned bytes in a Blob typed by the format (the OOXML type for \<^verbatim>\<open>docx\<close>, \<^verbatim>\<open>text/plain\<close> for anything else), saves it through a temporary anchor named by the derived filename, removes the anchor and releases the object URL.
\<close>

theorem download_saves_blob:
  assumes "sessionId st = Some sid" and "sid \<noteq> []"
    and "srv (download_url (api_base env) sid i format) = GetResolved bytes"
  shows "downloadArticle env srv True st i ttl format =
           [HttpGet (download_url (api_base env) sid i format),
            CreateObjectURL bytes
              (if format = js ''docx''
               then js ''application/vnd.openxmlformats-officedocument.wordprocessingml.document''
               else js ''text/plain''),
            AppendAnchor (download_filename ttl format), ClickAnchor, RemoveAnchor, RevokeObjectURL]"
  using assms by (simp add: downloadArticle_session blob_type_def docx_mime_def)

theorem download_saves_blob_witness:
  "downloadArticle None (\<lambda>_. GetResolved [1, 2]) True (init_page\<lparr>sessionId := Some (js ''s1'')\<rparr>)
     0 (js ''X'') (js ''docx'') =
   [HttpGet (download_url (api_base None) (js ''s1'') 0 (js ''docx'')),
    CreateObjectURL [1, 2]
      (js ''application/vnd.openxmlformats-officedocument.wordprocessingml.document''),
    AppendAnchor (download_filename (js ''X'') (js ''docx'')), ClickAnchor, RemoveAnchor,
    RevokeObjectURL]"
  using download_saves_blob [of "init_page\<lparr>sessionId := Some (js ''s1'')\<rparr>" "js ''s1''"
      "\<lambda>_. GetResolved [1, 2]" None 0 "js ''docx''" "[1, 2]" "js ''X''"]
  by simp

text \<open>
  C29: when the GET fails, the failure is only logged: the effects are the request and a console error, and nothing else.
\<close>

theorem download_get_rejected:
  assumes "sessionId st = Some sid" and "sid \<noteq> []"
    and "srv (download_url (api_base env) sid i format) = GetRejected"
  shows "downloadArticle env srv body st i ttl format =
           [HttpGet (download_url (api_base env) sid i format), LogError]"
  using assms by (simp add: downloadArticle_session)

theorem download_get_rejected_witness:
  "downloadArticle None (\<lambda>_. GetRejected) True (init_page\<lparr>sessionId := Some (js ''s1'')\<rparr>)
     0 (js ''X'') (js ''txt'') =
   [HttpGet (download_url (api_base None) (js ''s1'') 0 (js ''txt'')), LogError]"
  using download_get_rejected [of "init_page\<lparr>sessionId := Some (js ''s1'')\<rparr>" "js ''s1''"
      "\<lambda>_. GetRejected" None 0 "js ''txt''" True "js ''X''"]
  by simp

text \<open>
  C30: once an object URL has been created it is released exactly when the document has a body: the release is inside the \<^verbatim>\<open>try\<close> after \<^verbatim>\<open>appendChild\<close>, not in a \<^verbatim>\<open>finally\<close>, so when \<^verbatim>\<open>appendChild\<close> throws the object URL is never revoked.
\<close>

theorem download_revoke_requires_body:
  assumes "CreateObjectURL b m \<in> set (downloadArticle env srv body st i ttl format)"
  shows "RevokeObjectURL \<in> set (downloadArticle env srv body st i ttl format) \<longleftrightarrow> body"
  using assms
  by (auto simp: downloadArticle_defs Let_def split: option.splits if_splits get_outcome.splits)

theorem download_revoke_requires_body_witness:
  "CreateObjectURL [1] (js ''text/plain'') \<in> set (downloadArticle None (\<lambda>_. GetResolved [1]) False
       (init_page\<lparr>sessionId := Some (js ''s1'')\<rparr>) 0 (js ''X'') (js ''txt'')) \<and>
   RevokeObjectURL \<notin> set (downloadArticle None (\<lambda>_. GetResolved [1]) False
       (init_page\<lparr>sessionId := Some (js ''s1'')\<rparr>) 0 (js ''X'') (js ''txt''))"
proof -
  have c: "CreateObjectURL [1] (js ''text/plain'') \<in> set (downloadArticle None (\<lambda>_. GetResolved [1])
       False (init_page\<lparr>sessionId := Some (js ''s1'')\<rparr>) 0 (js ''X'') (js ''txt''))"
    by (simp add: downloadArticle_session blob_type_def)
  with download_revoke_requires_body [OF c] show ?thesis by simp
qed

subsection \<open>The download URL and the route that reads it\<close>

lemma route_path_safe: "list_all (\<lambda>c. c \<noteq> 0x3F \<and> c \<noteq> 0x23) s \<Longrightarrow> route_path s = s"
  by (simp add: route_path_def list_all_iff)

lemma digits_segment_safe: "segment_safe (js_nat_str n)"
  using js_nat_str_digits [of n] by (auto simp: segment_safe_def list_all_iff)

text \<open>
  C31: the download URL the page builds is read back by the service's route as the same session id, article index and format whenever the session id and the format contain no \<^verbatim>\<open>/\<close>, \<^verbatim>\<open>?\<close> or \<^verbatim>\<open>#\<close>.
\<close>

theorem download_route_roundtrip:
  assumes "segment_safe sid" and "segment_safe format"
  shows "parse_download_route api (download_url api sid i format) = Some (sid, i, format)"
proof -
  let ?rest = "sid @ js ''/'' @ js_nat_str i @ js ''/'' @ format"
  have nd: "segment_safe (js_nat_str i)" by (rule digits_segment_safe)
  have "route_path ?rest = ?rest"
    using assms nd by (intro route_path_safe) (auto simp: segment_safe_def list_all_iff)
  moreover have "split_on 0x2F ?rest = [sid, js_nat_str i, format]"
  proof -
    have "0x2F \<notin> set sid" "0x2F \<notin> set (js_nat_str i)" "0x2F \<notin> set format"
      using assms nd by (auto simp: segment_safe_def list_all_iff)
    then show ?thesis by (simp add: split_on_append_sep split_on_no_sep)
  qed
  ultimately show ?thesis
    by (simp add: parse_download_route_def download_url_def Let_def parse_dec_nat_str)
qed

theorem download_route_roundtrip_witness:
  "parse_download_route (js ''http://localhost:8000'')
     (download_url (js ''http://localhost:8000'') (js ''s1'') 12 (js ''docx'')) =
   Some (js ''s1'', 12, js ''docx'')"
  by (rule download_route_roundtrip) (simp_all add: segment_safe_def)




end
