(* ===== verification/App.thy ===== *)
theory App
  imports Session View Download
begin

text \<open>
  The whole page as one system: the events of \<open>Session\<close> (typing, submitting, a
  response arriving) together with clicks on the download buttons of the rendered cards
  (\<^verbatim>\<open>onClick={() => downloadArticle(index, article.title, 'txt')}\<close> and its
  \<^verbatim>\<open>docx\<close> twin, lines 160--180 of \<^verbatim>\<open>page.tsx\<close>). A click exists only on a page that
  renders, on a card and a button that are there. A download is two events, as the
  handler is two halves around its \<^verbatim>\<open>await\<close>: the click runs
  \<open>downloadArticle_start\<close> with the arguments of that button (reading the
  \<^verbatim>\<open>sessionId\<close> of that render), logs the GET and puts the download in flight under
  a fresh number; the reply to a download in flight runs \<open>downloadArticle_finish\<close> on
  the GET's outcome and logs the save or the error. Between the two, any other event
  may happen: more clicks, a new submission, a generation response. No half of the
  handler changes a state cell of the page. The field \<open>granted\<close> is an observer, not
  a variable of the page: the list of successful generation responses received so far,
  in order, against which the downloads are checked.
\<close>

datatype app_event =
    UiEvent ui_event
  | ClickDownload nat nat
  | DownloadReply nat "jstr \<Rightarrow> get_outcome" bool

record app =
  ses :: session
  downloads :: "(nat \<times> dl_request) list"
  dl_issued :: nat
  dl_log :: "dl_effect list"
  granted :: "GenerateNewsResponse list"

definition init_app :: app where
  "init_app = \<lparr>ses = init_session, downloads = [], dl_issued = 0, dl_log = [], granted = []\<rparr>"

definition granted_by :: "session \<Rightarrow> ui_event \<Rightarrow> GenerateNewsResponse list" where
  "granted_by s e =
     (case e of
        Reply i srv \<Rightarrow>
          (case map_of (pending s) i of
             Some rq \<Rightarrow>
               (case srv rq of PostResolved d \<Rightarrow> if success d then [d] else [] | PostRejected _ \<Rightarrow> [])
           | None \<Rightarrow> [])
      | _ \<Rightarrow> [])"

fun app_apply :: "bool \<Rightarrow> jstr option \<Rightarrow> app \<Rightarrow> app_event \<Rightarrow> app option" where
  "app_apply gated env a (UiEvent e) =
     (case ui_apply gated env (ses a) e of
        None \<Rightarrow> None
      | Some s \<Rightarrow> Some (a\<lparr>ses := s, granted := granted a @ granted_by (ses a) e\<rparr>))"
| "app_apply gated env a (ClickDownload i b) =
     (case render (page (ses a)) of
        None \<Rightarrow> None
      | Some v \<Rightarrow>
          if i < length (cards v) \<and> b < length (card_downloads (cards v ! i))
          then (case card_downloads (cards v ! i) ! b of
                  (j, t, f) \<Rightarrow>
                    (case downloadArticle_start env (page (ses a)) j t f of
                       None \<Rightarrow> Some a
                     | Some rq \<Rightarrow>
                         Some (a\<lparr>downloads := downloads a @ [(dl_issued a, rq)],
                                 dl_issued := Suc (dl_issued a),
                                 dl_log := dl_log a @ [HttpGet (dl_url rq)]\<rparr>)))
          else None)"
| "app_apply gated env a (DownloadReply k srv body) =
     (case map_of (downloads a) k of
        None \<Rightarrow> None
      | Some rq \<Rightarrow>
          Some (a\<lparr>downloads := filter (\<lambda>(j, _). j \<noteq> k) (downloads a),
                  dl_log := dl_log a @ downloadArticle_finish (srv (dl_url rq)) body rq\<rparr>))"

fun app_run :: "bool \<Rightarrow> jstr option \<Rightarrow> app \<Rightarrow> app_event list \<Rightarrow> app option" where
  "app_run gated env a [] = Some a"
| "app_run gated env a (e # es) =
     (case app_apply gated env a e of None \<Rightarrow> None | Some a' \<Rightarrow> app_run gated env a' es)"

inductive app_reachable :: "bool \<Rightarrow> jstr option \<Rightarrow> app \<Rightarrow> bool" for gated env where
  init: "app_reachable gated env init_app"
| step: "app_reachable gated env a \<Longrightarrow> app_apply gated env a e = Some a' \<Longrightarrow> app_reachable gated env a'"

fun ui_events :: "app_event list \<Rightarrow> ui_event list" where
  "ui_events [] = []"
| "ui_events (UiEvent e # es) = e # ui_events es"
| "ui_events (_ # es) = ui_events es"

definition requested_from :: "jstr option \<Rightarrow> GenerateNewsResponse list \<Rightarrow> jstr \<Rightarrow> bool" where
  "requested_from env ds u \<longleftrightarrow>
     (\<exists>d\<in>set ds. \<exists>i f. session_id d \<noteq> [] \<and> i < length (resp_articles d) \<and>
        (f = js ''txt'' \<or> f = js ''docx'') \<and> u = download_url (api_base env) (session_id d) i f)"

definition app_inv :: "jstr option \<Rightarrow> app \<Rightarrow> bool" where
  "app_inv env a \<longleftrightarrow>
     sessionId (page (ses a)) = (if granted a = [] then None else Some (session_id (last (granted a)))) \<and>
     (articles (page (ses a)) \<noteq> [] \<longrightarrow>
        granted a \<noteq> [] \<and> articles (page (ses a)) = resp_articles (last (granted a))) \<and>
     (\<forall>u. HttpGet u \<in> set (dl_log a) \<longrightarrow> requested_from env (granted a) u) \<and>
     distinct (map fst (downloads a)) \<and> (\<forall>k \<in> set (map fst (downloads a)). k < dl_issued a)"

lemma start_Some_request:
  "downloadArticle_start env st j t f = Some rq \<Longrightarrow>
   \<exists>sid. sessionId st = Some sid \<and> sid \<noteq> [] \<and>
         rq = \<lparr>dl_url = download_url (api_base env) sid j f, dl_title = t, dl_format = f\<rparr>"
  by (cases "sessionId st") (auto simp: downloadArticle_start_def split: if_splits)

lemma finish_no_get: "HttpGet u \<notin> set (downloadArticle_finish r body rq)"
  by (simp add: downloadArticle_finish_def split: get_outcome.split)

lemma render_cards_length: "render st = Some v \<Longrightarrow> length (cards v) = length (articles st)"
  by (auto simp: render_def split: if_splits)

lemma click_Some:
  assumes "app_apply gated env a (ClickDownload i b) = Some a'"
  shows "\<exists>f. i < length (articles (page (ses a))) \<and> (f = js ''txt'' \<or> f = js ''docx'') \<and>
           (case downloadArticle_start env (page (ses a)) i (title (articles (page (ses a)) ! i)) f of
              None \<Rightarrow> a' = a
            | Some rq \<Rightarrow> a' = a\<lparr>downloads := downloads a @ [(dl_issued a, rq)],
                                dl_issued := Suc (dl_issued a),
                                dl_log := dl_log a @ [HttpGet (dl_url rq)]\<rparr>)"
proof -
  obtain v where v: "render (page (ses a)) = Some v"
    using assms by (auto split: option.splits)
  with assms have i: "i < length (cards v)" and b: "b < length (card_downloads (cards v ! i))"
    by (auto split: if_splits)
  from i v have il: "i < length (articles (page (ses a)))" by (simp add: render_cards_length)
  then have c: "cards v ! i = article_card i (articles (page (ses a)) ! i)"
    using render_card_nth [OF v] by blast
  from b have "b < 2" by (simp add: c article_card_def)
  then have "b = 0 \<or> b = 1" by arith
  then show ?thesis
    using assms v i il by (auto simp: c article_card_def split: option.splits)
qed

lemma requested_from_mono:
  "requested_from env ds u \<Longrightarrow> requested_from env (ds @ ds') u"
  by (auto simp: requested_from_def)

lemma app_inv_init: "app_inv env init_app"
  by (simp add: app_inv_def init_app_def init_session_def init_page_def)

lemma app_inv_ui:
  assumes inv: "app_inv env a" and step: "ui_apply gated env (ses a) e = Some s"
  shows "app_inv env (a\<lparr>ses := s, granted := granted a @ granted_by (ses a) e\<rparr>)"
proof (cases e)
  case (TypeUrl u)
  then show ?thesis using inv step by (auto simp: app_inv_def granted_by_def)
next
  case SubmitForm
  show ?thesis
  proof (cases "handleSubmit_start env (page (ses a))")
    case None
    then show ?thesis using inv step SubmitForm by (auto simp: app_inv_def granted_by_def split: if_splits)
  next
    case (Some prq)
    then obtain p rq where st: "handleSubmit_start env (page (ses a)) = Some (p, rq)"
      by (cases prq) auto
    then have "p = (page (ses a))\<lparr>loading := True, error := None, articles := []\<rparr>"
      by (rule start_Some_page)
    then show ?thesis using inv step SubmitForm st
      by (auto simp: app_inv_def granted_by_def split: if_splits)
  qed
next
  case (Reply i srv)
  then obtain rq where rq: "map_of (pending (ses a)) i = Some rq"
    and s: "s = (ses a)\<lparr>page := handleSubmit_finish (srv rq) (page (ses a)),
                        pending := filter (\<lambda>(j, _). j \<noteq> i) (pending (ses a))\<rparr>"
    using step by (auto split: option.splits)
  show ?thesis
    using inv by (auto simp: app_inv_def granted_by_def Reply rq s handleSubmit_finish_def
        intro: requested_from_mono split: post_outcome.splits)
qed

lemma app_inv_click:
  assumes inv: "app_inv env a" and step: "app_apply gated env a (ClickDownload i b) = Some a'"
  shows "app_inv env a'"
proof -
  obtain f where i: "i < length (articles (page (ses a)))"
    and f: "f = js ''txt'' \<or> f = js ''docx''"
    and a': "case downloadArticle_start env (page (ses a)) i (title (articles (page (ses a)) ! i)) f of
               None \<Rightarrow> a' = a
             | Some rq \<Rightarrow> a' = a\<lparr>downloads := downloads a @ [(dl_issued a, rq)],
                                 dl_issued := Suc (dl_issued a),
                                 dl_log := dl_log a @ [HttpGet (dl_url rq)]\<rparr>"
    using click_Some [OF step] by blast
  show ?thesis
  proof (cases "downloadArticle_start env (page (ses a)) i (title (articles (page (ses a)) ! i)) f")
    case None
    with a' inv show ?thesis by simp
  next
    case (Some rq)
    from start_Some_request [OF Some] obtain sid where sid: "sessionId (page (ses a)) = Some sid"
      and ne: "sid \<noteq> []" and u: "dl_url rq = download_url (api_base env) sid i f" by auto
    from inv sid have g: "granted a \<noteq> []" "sid = session_id (last (granted a))"
      by (auto simp: app_inv_def split: if_splits)
    from inv i have "articles (page (ses a)) = resp_articles (last (granted a))"
      by (auto simp: app_inv_def)
    with g i ne u f have r: "requested_from env (granted a) (dl_url rq)"
      unfolding requested_from_def by (intro bexI [of _ "last (granted a)"]) auto
    from inv have "dl_issued a \<notin> set (map fst (downloads a))" by (auto simp: app_inv_def)
    with a' Some inv r show ?thesis by (auto simp: app_inv_def)
  qed
qed

lemma app_inv_reply:
  assumes inv: "app_inv env a" and step: "app_apply gated env a (DownloadReply k srv body) = Some a'"
  shows "app_inv env a'"
  using assms by (fastforce simp: app_inv_def finish_no_get distinct_map_filter split: option.splits)

lemma app_inv_step: "app_inv env a \<Longrightarrow> app_apply gated env a e = Some a' \<Longrightarrow> app_inv env a'"
proof (cases e)
  case (UiEvent x)
  then show "app_inv env a \<Longrightarrow> app_apply gated env a e = Some a' \<Longrightarrow> app_inv env a'"
    by (auto simp: app_inv_ui split: option.splits)
next
  case (ClickDownload i b)
  then show "app_inv env a \<Longrightarrow> app_apply gated env a e = Some a' \<Longrightarrow> app_inv env a'"
    using app_inv_click by blast
next
  case (DownloadReply k srv body)
  then show "app_inv env a \<Longrightarrow> app_apply gated env a e = Some a' \<Longrightarrow> app_inv env a'"
    using app_inv_reply by blast
qed

lemma app_reachable_inv: "app_reachable gated env a \<Longrightarrow> app_inv env a"
  by (induction rule: app_reachable.induct) (auto intro: app_inv_init app_inv_step)

lemma app_reachable_run:
  "app_reachable gated env a \<Longrightarrow> app_run gated env a es = Some b \<Longrightarrow> app_reachable gated env b"
proof (induction es arbitrary: a)
  case Nil
  then show ?case by simp
next
  case (Cons e es)
  then obtain a' where "app_apply gated env a e = Some a'" and "app_run gated env a' es = Some b"
    by (auto split: option.splits)
  with Cons show ?case by (blast intro: app_reachable.step)
qed

lemmas app_run_from_init = app_reachable_run [OF app_reachable.init]


lemma app_step_frame:
  "app_apply gated env a e = Some a' \<Longrightarrow>
   (case e of UiEvent x \<Rightarrow> ui_apply gated env (ses a) x = Some (ses a') | _ \<Rightarrow> ses a' = ses a)"
  by (cases e) (auto split: option.splits if_splits prod.splits)

lemmas app_eval_defs = init_app_def granted_by_def init_session_def init_page_def
  handleSubmit_start_def generate_request_def api_base_def default_api_url_def js_trim_def
  is_js_space_def handleSubmit_finish_def render_def shown_error_def article_card_def
  downloadArticle_defs download_url_def js_nat_str.simps

text \<open>
  C13: in every reachable state of the page, with or without the button gate, every
  download request the page has sent names a session id the generation service returned
  in a successful response, and an index of an article of that same response, in the
  format \<^verbatim>\<open>txt\<close> or \<^verbatim>\<open>docx\<close>: the page never asks the artifact service for a
  session it was not given or an article that session does not have.
\<close>

theorem downloads_request_issued_articles:
  assumes "app_reachable gated env a" and "HttpGet u \<in> set (dl_log a)"
  shows "\<exists>d\<in>set (granted a). \<exists>i f. session_id d \<noteq> [] \<and> i < length (resp_articles d) \<and>
           (f = js ''txt'' \<or> f = js ''docx'') \<and> u = download_url (api_base env) (session_id d) i f"
  using app_reachable_inv [OF assms(1)] assms(2) by (simp add: app_inv_def requested_from_def)

text \<open>
  C14: a click on a download button of a reachable page starts the download of article
  \<open>i\<close> of the latest successful generation response: the page's session id is that
  response's and the index is one of its articles; when that session id is empty the
  click does nothing, and otherwise it sends the GET for that session, index and format
  and puts in flight a download that will save under that article's title.
\<close>

theorem click_downloads_latest_article:
  assumes "app_reachable gated env a" and "app_apply gated env a (ClickDownload i b) = Some a'"
  shows "\<exists>f. granted a \<noteq> [] \<and> sessionId (page (ses a)) = Some (session_id (last (granted a))) \<and>
             i < length (resp_articles (last (granted a))) \<and> (f = js ''txt'' \<or> f = js ''docx'') \<and>
             (session_id (last (granted a)) = [] \<longrightarrow> a' = a) \<and>
             (session_id (last (granted a)) \<noteq> [] \<longrightarrow>
                dl_log a' = dl_log a @
                  [HttpGet (download_url (api_base env) (session_id (last (granted a))) i f)] \<and>
                downloads a' = downloads a @
                  [(dl_issued a, \<lparr>dl_url = download_url (api_base env) (session_id (last (granted a))) i f,
                                 dl_title = title (resp_articles (last (granted a)) ! i),
                                 dl_format = f\<rparr>)])"
proof -
  have inv: "app_inv env a" using assms(1) by (rule app_reachable_inv)
  obtain f where i: "i < length (articles (page (ses a)))"
    and f: "f = js ''txt'' \<or> f = js ''docx''"
    and a': "case downloadArticle_start env (page (ses a)) i (title (articles (page (ses a)) ! i)) f of
               None \<Rightarrow> a' = a
             | Some rq \<Rightarrow> a' = a\<lparr>downloads := downloads a @ [(dl_issued a, rq)],
                                 dl_issued := Suc (dl_issued a),
                                 dl_log := dl_log a @ [HttpGet (dl_url rq)]\<rparr>"
    using click_Some [OF assms(2)] by blast
  from inv i have g: "granted a \<noteq> []" and art: "articles (page (ses a)) = resp_articles (last (granted a))"
    by (auto simp: app_inv_def)
  with inv have sid: "sessionId (page (ses a)) = Some (session_id (last (granted a)))"
    by (simp add: app_inv_def)
  show ?thesis
    using g sid i f a' by (intro exI [of _ f]) (auto simp: art downloadArticle_start_def)
qed

text \<open>
  C15: downloads do not interfere with the rest of the page: for every run of the whole
  page, clicks and download replies included, the session part of the final state is
  the state that the same run with all download events removed reaches. A download,
  failed or not, never changes a state cell of the page and never blocks or alters a
  submission; its errors only reach the console.
\<close>

theorem downloads_do_not_interfere:
  assumes "app_run gated env a es = Some a'"
  shows "ui_run gated env (ses a) (ui_events es) = Some (ses a')"
  using assms
proof (induction es arbitrary: a)
  case Nil
  then show ?case by simp
next
  case (Cons e es)
  then obtain a1 where step: "app_apply gated env a e = Some a1"
    and rest: "app_run gated env a1 es = Some a'"
    by (auto split: option.splits)
  have ih: "ui_run gated env (ses a1) (ui_events es) = Some (ses a')"
    using Cons.IH [OF rest] .
  from app_step_frame [OF step] ih show ?case
    by (cases e) (auto split: option.split)
qed


theorem downloads_request_issued_articles_witness:
  "\<exists>a. app_run True None init_app
         [UiEvent (TypeUrl (js ''u'')), UiEvent SubmitForm,
          UiEvent (Reply 0 (\<lambda>_. PostResolved \<lparr>success = True,
             resp_articles = [\<lparr>title = js ''A'', content = js ''B'', key_quote = []\<rparr>],
             session_id = js ''s1'', resp_url = js ''u''\<rparr>)),
          ClickDownload 0 1] = Some a \<and>
       HttpGet (js ''http://localhost:8000/download-article/s1/0/docx'') \<in> set (dl_log a) \<and>
       (\<exists>d\<in>set (granted a). \<exists>i f. session_id d \<noteq> [] \<and> i < length (resp_articles d) \<and>
          (f = js ''txt'' \<or> f = js ''docx'') \<and>
          js ''http://localhost:8000/download-article/s1/0/docx'' = download_url (api_base None) (session_id d) i f)"
proof -
  define evs where "evs = [UiEvent (TypeUrl (js ''u'')), UiEvent SubmitForm,
          UiEvent (Reply 0 (\<lambda>_. PostResolved \<lparr>success = True,
             resp_articles = [\<lparr>title = js ''A'', content = js ''B'', key_quote = []\<rparr>],
             session_id = js ''s1'', resp_url = js ''u''\<rparr>)),
          ClickDownload 0 1]"
  define a where "a = the (app_run True None init_app evs)"
  have run: "app_run True None init_app evs = Some a"
    by (simp add: a_def evs_def app_eval_defs)
  have get: "HttpGet (js ''http://localhost:8000/download-article/s1/0/docx'') \<in> set (dl_log a)"
    by (simp add: a_def evs_def app_eval_defs)
  from downloads_request_issued_articles [OF app_run_from_init [OF run] get] run get
  show ?thesis by (auto simp: evs_def)
qed

theorem click_downloads_latest_article_witness:
  "\<exists>a a'. app_run False None init_app
         [UiEvent (TypeUrl (js ''u'')), UiEvent SubmitForm,
          UiEvent (Reply 0 (\<lambda>_. PostResolved \<lparr>success = True,
             resp_articles = [\<lparr>title = js ''A'', content = js ''B'', key_quote = []\<rparr>],
             session_id = js ''s1'', resp_url = js ''u''\<rparr>))] = Some a \<and>
       app_apply False None a (ClickDownload 0 0) = Some a' \<and>
       (\<exists>f. granted a \<noteq> [] \<and> sessionId (page (ses a)) = Some (session_id (last (granted a))) \<and>
             0 < length (resp_articles (last (granted a))) \<and> (f = js ''txt'' \<or> f = js ''docx'') \<and>
             (session_id (last (granted a)) = [] \<longrightarrow> a' = a) \<and>
             (session_id (last (granted a)) \<noteq> [] \<longrightarrow>
                dl_log a' = dl_log a @
                  [HttpGet (download_url (api_base None) (session_id (last (granted a))) 0 f)] \<and>
                downloads a' = downloads a @
                  [(dl_issued a, \<lparr>dl_url = download_url (api_base None) (session_id (last (granted a))) 0 f,
                                 dl_title = title (resp_articles (last (granted a)) ! 0),
                                 dl_format = f\<rparr>)]))"
proof -
  define evs where "evs = [UiEvent (TypeUrl (js ''u'')), UiEvent SubmitForm,
          UiEvent (Reply 0 (\<lambda>_. PostResolved \<lparr>success = True,
             resp_articles = [\<lparr>title = js ''A'', content = js ''B'', key_quote = []\<rparr>],
             session_id = js ''s1'', resp_url = js ''u''\<rparr>))]"
  define a where "a = the (app_run False None init_app evs)"
  have run: "app_run False None init_app evs = Some a"
    by (simp add: a_def evs_def app_eval_defs)
  define a' where "a' = the (app_apply False None a (ClickDownload 0 0))"
  have click: "app_apply False None a (ClickDownload 0 0) = Some a'"
    by (simp add: a'_def a_def evs_def app_eval_defs)
  from click_downloads_latest_article [OF app_run_from_init [OF run] click] run click
  show ?thesis unfolding evs_def by blast
qed

theorem downloads_do_not_interfere_witness:
  "\<exists>a'. app_run True None init_app
         [UiEvent (TypeUrl (js ''u'')), UiEvent SubmitForm,
          UiEvent (Reply 0 (\<lambda>_. PostResolved \<lparr>success = True,
             resp_articles = [\<lparr>title = js ''A'', content = js ''B'', key_quote = []\<rparr>],
             session_id = js ''s1'', resp_url = js ''u''\<rparr>)),
          ClickDownload 0 0, UiEvent SubmitForm, DownloadReply 0 (\<lambda>_. GetRejected) True] = Some a' \<and>
       ui_run True None init_session
         [TypeUrl (js ''u''), SubmitForm,
          Reply 0 (\<lambda>_. PostResolved \<lparr>success = True,
             resp_articles = [\<lparr>title = js ''A'', content = js ''B'', key_quote = []\<rparr>],
             session_id = js ''s1'', resp_url = js ''u''\<rparr>),
          SubmitForm] = Some (ses a')"
proof -
  define evs where "evs = [UiEvent (TypeUrl (js ''u'')), UiEvent SubmitForm,
          UiEvent (Reply 0 (\<lambda>_. PostResolved \<lparr>success = True,
             resp_articles = [\<lparr>title = js ''A'', content = js ''B'', key_quote = []\<rparr>],
             session_id = js ''s1'', resp_url = js ''u''\<rparr>)),
          ClickDownload 0 0, UiEvent SubmitForm, DownloadReply 0 (\<lambda>_. GetRejected) True]"
  define a' where "a' = the (app_run True None init_app evs)"
  have run: "app_run True None init_app evs = Some a'"
    by (simp add: a'_def evs_def app_eval_defs)
  from downloads_do_not_interfere [OF run] run
  show ?thesis by (simp add: evs_def init_app_def)
qed


end
