(* ===== verification/Response.thy ===== *)
theory Response
  imports Submit
begin

text \<open>
  The body of a resolved POST as the page really receives it. The type argument of
  \<^verbatim>\<open>axios.post<GenerateNewsResponse>\<close> (\<^verbatim>\<open>page.tsx\<close> line 37) is only a
  compile-time assertion: at run time \<^verbatim>\<open>response.data\<close> is whatever JSON the service
  sent, or the raw text when the body is not JSON (axios then keeps the string). Lines
  42--52 read \<^verbatim>\<open>response.data.success\<close> for its truthiness and store
  \<^verbatim>\<open>response.data.articles\<close> and \<^verbatim>\<open>response.data.session_id\<close> as they are;
  reading a property of \<^verbatim>\<open>null\<close> throws a \<^verbatim>\<open>TypeError\<close> inside the
  \<^verbatim>\<open>try\<close>, which the \<^verbatim>\<open>catch\<close> turns into the fallback message, since a
  \<^verbatim>\<open>TypeError\<close> has no \<^verbatim>\<open>response\<close>.

  \<open>handleSubmit_finish_raw\<close> is that code over a \<open>jval\<close> body. Its result is
  \<open>None\<close> when the page would store values outside the types of its state cells (an
  \<^verbatim>\<open>articles\<close> that is not an array of articles, a \<^verbatim>\<open>session_id\<close> that is
  neither a string nor absent); \<open>stored_session\<close> keeps an absent or \<^verbatim>\<open>null\<close>
  session id as \<open>None\<close>, which the page's only reader, \<^verbatim>\<open>!sessionId\<close>, treats
  alike; \<open>decode_articles\<close> checks that a value is an array of objects with the
  three string members of the interface \<^verbatim>\<open>NewsArticle\<close>.
\<close>

datatype raw_outcome = RawResolved jval | RawRejected "jval option"

definition str_field :: "jval \<Rightarrow> jstr \<Rightarrow> jstr option" where
  "str_field v k = (case opt_get (Some v) k of Some (JStr s) \<Rightarrow> Some s | _ \<Rightarrow> None)"

definition decode_article :: "jval \<Rightarrow> NewsArticle option" where
  "decode_article v =
     (case (str_field v (js ''title''), str_field v (js ''content''), str_field v (js ''key_quote'')) of
        (Some t, Some c, Some q) \<Rightarrow> Some \<lparr>title = t, content = c, key_quote = q\<rparr>
      | _ \<Rightarrow> None)"

definition decode_articles :: "jval option \<Rightarrow> NewsArticle list option" where
  "decode_articles v = (case v of Some (JArr vs) \<Rightarrow> those (map decode_article vs) | _ \<Rightarrow> None)"

definition stored_session :: "jval option \<Rightarrow> jstr option option" where
  "stored_session v =
     (case v of None \<Rightarrow> Some None | Some JNull \<Rightarrow> Some None | Some (JStr s) \<Rightarrow> Some (Some s)
      | Some _ \<Rightarrow> None)"

definition handleSubmit_finish_raw :: "raw_outcome \<Rightarrow> page_state \<Rightarrow> page_state option" where
  "handleSubmit_finish_raw r st =
     (case r of
        RawRejected data \<Rightarrow> Some (handleSubmit_finish (PostRejected data) st)
      | RawResolved data \<Rightarrow>
          if data = JNull then Some (handleSubmit_finish (PostRejected None) st)
          else if js_truthy_opt (opt_get (Some data) (js ''success''))
          then (case (decode_articles (opt_get (Some data) (js ''articles'')),
                      stored_session (opt_get (Some data) (js ''session_id''))) of
                  (Some as, Some sid) \<Rightarrow> Some (st\<lparr>articles := as, sessionId := sid, loading := False\<rparr>)
                | _ \<Rightarrow> None)
          else Some (st\<lparr>error := Some (JStr failed_msg), loading := False\<rparr>))"

text \<open>
  C6: a body whose \<^verbatim>\<open>success\<close> is not truthy (missing, \<^verbatim>\<open>false\<close>, \<^verbatim>\<open>0\<close>,
  or a body that is not an object at all, such as the HTML text of a proxy error page
  with a 2xx status) ends with \<^verbatim>\<open>Failed to generate news articles\<close>; a body of
  \<^verbatim>\<open>null\<close> ends with the fallback message, through the \<^verbatim>\<open>TypeError\<close> and
  the \<^verbatim>\<open>catch\<close>. The loading flag is cleared in both cases.
\<close>

theorem raw_body_without_success:
  assumes "\<not> js_truthy_opt (opt_get (Some data) (js ''success''))"
  shows "handleSubmit_finish_raw (RawResolved data) st =
           Some (st\<lparr>loading := False,
                    error := Some (JStr (if data = JNull
                                         then js ''An error occurred while processing the podcast''
                                         else js ''Failed to generate news articles''))\<rparr>)"
  using assms
  by (simp add: handleSubmit_finish_raw_def handleSubmit_finish_def error_detail_def js_or_def
      opt_get_def fallback_msg_def failed_msg_def)

theorem raw_body_without_success_witness:
  "handleSubmit_finish_raw (RawResolved (JStr (js ''<html>Bad Gateway</html>''))) init_page =
     Some (init_page\<lparr>loading := False, error := Some (JStr (js ''Failed to generate news articles''))\<rparr>)"
  using raw_body_without_success [of "JStr (js ''<html>Bad Gateway</html>'')" init_page]
  by (simp add: opt_get_def js_truthy_opt_def)


end
