(* ===== verification/Token.thy ===== *)
theory Token
  imports Session
begin

text \<open>
  The strengthening that section 5 of the spec recommends, as a second controller beside
  the page: every submission carries the number it was issued under (the \<open>issued\<close>
  counter of \<open>Session\<close>), and a response whose number is not that of the most recent
  submission is discarded, without touching a state cell. This is not code of the
  repository; \<open>tok_apply\<close> is modelled from the spec, and otherwise runs the page's
  own handlers (\<open>ui_apply\<close>), so that the two differ only in the staleness check.

  The lemmas show what the strengthening buys and what it costs. Without relying on the
  button gate, the controller keeps the page consistent (the loading flag is set exactly
  while the latest submission is in flight, an error and results are never shown
  together) and refines the spec's Idle/Loading/Error/Ready machine; the run in which
  the page lets an older response overwrite a newer one ends, under the controller,
  with the newer results. Under the gate, the controller and the page take the same
  step from every reachable state: the check never fires, so adopting it changes no
  behaviour the page has today.
\<close>

fun tok_apply :: "bool \<Rightarrow> jstr option \<Rightarrow> session \<Rightarrow> ui_event \<Rightarrow> session option" where
  "tok_apply gated env s (Reply i srv) =
     (case map_of (pending s) i of
        None \<Rightarrow> None
      | Some rq \<Rightarrow>
          if Suc i = issued s then ui_apply gated env s (Reply i srv)
          else Some (s\<lparr>pending := filter (\<lambda>(j, _). j \<noteq> i) (pending s)\<rparr>))"
| "tok_apply gated env s e = ui_apply gated env s e"

inductive tok_reachable :: "bool \<Rightarrow> jstr option \<Rightarrow> session \<Rightarrow> bool" for gated env where
  init: "tok_reachable gated env init_session"
| step: "tok_reachable gated env s \<Longrightarrow> tok_apply gated env s e = Some t \<Longrightarrow> tok_reachable gated env t"

definition latest_in_flight :: "session \<Rightarrow> bool" where
  "latest_in_flight s \<longleftrightarrow> 0 < issued s \<and> issued s - 1 \<in> set (map fst (pending s))"

definition tok_inv :: "session \<Rightarrow> bool" where
  "tok_inv s \<longleftrightarrow>
     (loading (page s) \<longleftrightarrow> latest_in_flight s) \<and>
     (loading (page s) \<longrightarrow> error (page s) = None \<and> articles (page s) = []) \<and>
     (error (page s) \<noteq> None \<longrightarrow> articles (page s) = []) \<and>
     ids_ok s"

lemma tok_inv_init: "tok_inv init_session"
  by (simp add: tok_inv_def latest_in_flight_def ids_ok_def init_session_def init_page_def)

lemma tok_inv_submit:
  assumes inv: "tok_inv s" and step: "ui_apply gated env s SubmitForm = Some t"
  shows "tok_inv t"
proof (cases "handleSubmit_start env (page s)")
  case None
  with inv step show ?thesis by (auto split: if_splits)
next
  case (Some a)
  then obtain p rq where st: "handleSubmit_start env (page s) = Some (p, rq)"
    by (cases a) auto
  with step have t: "t = \<lparr>page = p, pending = pending s @ [(issued s, rq)], issued = Suc (issued s)\<rparr>"
    by (auto split: if_splits)
  from inv have "issued s \<notin> set (map fst (pending s))"
    by (auto simp: tok_inv_def ids_ok_def list_all_iff)
  with inv t start_Some_page [OF st] show ?thesis
    by (auto simp: tok_inv_def latest_in_flight_def ids_ok_def list_all_iff)
qed

lemma keys_filter_neq: "set (map fst (filter (\<lambda>(j, _). j \<noteq> i) xs)) = set (map fst xs) - {i}"
  by (induction xs) auto

lemma tok_inv_reply:
  assumes inv: "tok_inv s" and step: "tok_apply gated env s (Reply i srv) = Some t"
  shows "tok_inv t"
proof -
  from step obtain rq where rq: "map_of (pending s) i = Some rq"
    by (auto split: option.splits)
  then have i: "i \<in> set (map fst (pending s))"
    by (force dest: map_of_SomeD)
  have pt: "pending t = filter (\<lambda>(j, _). j \<noteq> i) (pending s)" and it: "issued t = issued s"
    using step rq by (auto split: if_splits)
  have ids: "ids_ok t"
    using inv unfolding tok_inv_def ids_ok_def pt it
    by (auto simp: list_all_iff distinct_map_filter)
  have keys: "set (map fst (pending t)) = set (map fst (pending s)) - {i}"
    by (simp only: pt keys_filter_neq)
  show ?thesis
  proof (cases "Suc i = issued s")
    case True
    with step rq have t: "page t = handleSubmit_finish (srv rq) (page s)"
      by auto
    from i have "latest_in_flight s" by (simp add: latest_in_flight_def True [symmetric])
    with inv have clean: "error (page s) = None" "articles (page s) = []"
      by (auto simp: tok_inv_def)
    have nl: "\<not> latest_in_flight t"
      by (simp add: latest_in_flight_def keys [simplified] it True [symmetric])
    have "\<not> loading (page t)" by (simp add: t finish_fields)
    moreover have "error (page t) \<noteq> None \<longrightarrow> articles (page t) = []"
      using clean by (auto simp: t handleSubmit_finish_def split: post_outcome.splits)
    ultimately show ?thesis using nl ids by (simp add: tok_inv_def)
  next
    case False
    with step rq have t: "page t = page s"
      by auto
    have "latest_in_flight t \<longleftrightarrow> latest_in_flight s"
      using False by (auto simp: latest_in_flight_def keys [simplified] it)
    with inv ids show ?thesis by (simp add: tok_inv_def t)
  qed
qed

lemma tok_inv_step: "tok_inv s \<Longrightarrow> tok_apply gated env s e = Some t \<Longrightarrow> tok_inv t"
proof (cases e)
  case (TypeUrl u)
  show "tok_inv s \<Longrightarrow> tok_apply gated env s e = Some t \<Longrightarrow> tok_inv t"
  proof -
    assume "tok_inv s" and "tok_apply gated env s e = Some t"
    moreover from this(2) TypeUrl have "t = s\<lparr>page := (page s)\<lparr>url := u\<rparr>\<rparr>" by auto
    ultimately show "tok_inv t" by (simp add: tok_inv_def latest_in_flight_def ids_ok_def)
  qed
next
  case SubmitForm
  then show "tok_inv s \<Longrightarrow> tok_apply gated env s e = Some t \<Longrightarrow> tok_inv t"
    using tok_inv_submit by simp
next
  case (Reply i srv)
  then show "tok_inv s \<Longrightarrow> tok_apply gated env s e = Some t \<Longrightarrow> tok_inv t"
    using tok_inv_reply by simp
qed

lemma tok_reachable_inv: "tok_reachable gated env s \<Longrightarrow> tok_inv s"
proof (induction rule: tok_reachable.induct)
  case init
  show ?case by (rule tok_inv_init)
next
  case (step s e t)
  from step.IH step.hyps(2) show ?case by (rule tok_inv_step)
qed

lemma tok_reachable_run:
  "tok_reachable gated env s \<Longrightarrow> opt_run (tok_apply gated env) s es = Some t \<Longrightarrow>
   tok_reachable gated env t"
proof (induction es arbitrary: s)
  case Nil
  then show ?case by simp
next
  case (Cons e es)
  then obtain s' where "tok_apply gated env s e = Some s'" and "opt_run (tok_apply gated env) s' es = Some t"
    by (auto split: option.splits)
  with Cons show ?case by (blast intro: tok_reachable.step)
qed

lemmas tok_run_from_init = tok_reachable_run [OF tok_reachable.init]

lemmas tok_eval_defs = init_session_def init_page_def handleSubmit_start_def handleSubmit_finish_def
  generate_request_def js_trim_def is_js_space_def

text \<open>
  C21: with the request tokens, and whether or not the submit button is disabled while
  loading, every reachable state shows the loading flag exactly while the most recent
  submission is in flight, and never shows an error together with results.
\<close>

theorem tok_consistent_without_gate:
  assumes "tok_reachable gated env s"
  shows "(loading (page s) \<longleftrightarrow> latest_in_flight s) \<and> (error (page s) \<noteq> None \<longrightarrow> articles (page s) = [])"
  using tok_reachable_inv [OF assms] by (simp add: tok_inv_def)

text \<open>
  C20: with the request tokens, and whether or not the submit button is disabled while
  loading, every step of the page is a step of the spec's Idle/Loading/Error/Ready
  machine or leaves the abstract state unchanged: the strengthening refines the spec
  without relying on the presentation layer.
\<close>

theorem tok_refines_spec:
  assumes "tok_reachable gated env s" and "tok_apply gated env s e = Some t"
  shows "abs_state (page t) = abs_state (page s) \<or> spec_step (abs_state (page s)) (abs_state (page t))"
proof -
  have inv: "tok_inv s" using assms(1) by (rule tok_reachable_inv)
  show ?thesis
  proof (cases e)
    case (TypeUrl u)
    with assms(2) have "page t = (page s)\<lparr>url := u\<rparr>" by auto
    then show ?thesis by (simp add: abs_state_def split: option.split)
  next
    case SubmitForm
    show ?thesis
    proof (cases "handleSubmit_start env (page s)")
      case None
      with assms(2) SubmitForm show ?thesis by (auto split: if_splits)
    next
      case (Some a)
      then obtain p rq where st: "handleSubmit_start env (page s) = Some (p, rq)"
        by (cases a) auto
      with assms(2) SubmitForm have pt: "page t = p"
        by (auto split: if_splits)
      from pt start_Some_page [OF st] have lt: "loading (page t)" by simp
      show ?thesis
      proof (cases "loading (page s)")
        case True
        with lt show ?thesis by (simp add: abs_state_def)
      next
        case False
        then have "abs_state (page s) \<noteq> Loading"
          by (auto simp: abs_state_def split: option.splits)
        with lt show ?thesis by (simp add: abs_state_def spec_step.submit)
      qed
    qed
  next
    case (Reply i srv)
    with assms(2) obtain rq where rq: "map_of (pending s) i = Some rq"
      by (auto split: option.splits)
    show ?thesis
    proof (cases "Suc i = issued s")
      case True
      with assms(2) Reply rq have t: "page t = handleSubmit_finish (srv rq) (page s)"
        by auto
      from rq True have "latest_in_flight s"
        by (auto simp: latest_in_flight_def dest: map_of_SomeD intro: rev_image_eqI)
      with inv have ld: "loading (page s)" and clean: "error (page s) = None"
        by (auto simp: tok_inv_def)
      then have "abs_state (page s) = Loading" by (simp add: abs_state_def)
      moreover have "spec_step Loading (abs_state (page t))"
        using clean
        by (auto simp: t abs_state_def handleSubmit_finish_def
              intro: spec_step.intros split: post_outcome.splits)
      ultimately show ?thesis by simp
    next
      case False
      with assms(2) Reply rq have "page t = page s" by auto
      then show ?thesis by simp
    qed
  qed
qed

text \<open>
  C22: under the button gate, the controller with request tokens and the page take the
  same step from every state the page can reach: the staleness check never fires, so
  adopting the strengthening changes no behaviour of the page as it is.
\<close>

theorem tok_equals_page_under_gate:
  assumes "reachable True env s"
  shows "tok_apply True env s e = ui_apply True env s e"
proof (cases e)
  case (Reply i srv)
  show ?thesis
  proof (cases "map_of (pending s) i")
    case None
    with Reply show ?thesis by simp
  next
    case (Some rq)
    have "gated_inv s" using assms by (rule reachable_gated_inv)
    with Some have "Suc i = issued s"
      by (auto simp: gated_inv_def list_all_iff dest!: map_of_SomeD)
    with Reply Some show ?thesis by simp
  qed
qed simp_all

text \<open>
  C23: with the request tokens, in the situation where the page lets a stale response
  win (C19: two submissions in flight, the newer one's response first, the older one's
  last), the page keeps the newer submission's results: when the latest submission's
  response succeeds, the older one's response is discarded, whatever it is.
\<close>

theorem tok_stale_response_discarded:
  assumes "map_of (pending s) i = Some rqi" and "map_of (pending s) j = Some rqj" and "i < j"
    and "Suc j = issued s" and "srv rqj = PostResolved dj" and "success dj"
  shows "\<exists>t. opt_run (tok_apply gated env) s [Reply j srv, Reply i srv] = Some t \<and>
             \<not> loading (page t) \<and> articles (page t) = resp_articles dj \<and>
             sessionId (page t) = Some (session_id dj)"
proof -
  from assms(3) have "i \<noteq> j" by simp
  then have "map_of (filter (\<lambda>(k, _). k \<noteq> j) (pending s)) i = Some rqi"
    by (simp add: map_of_filter_neq assms(1))
  moreover from assms(3,4) have "Suc i \<noteq> issued s" by simp
  ultimately show ?thesis using assms(2,4,5,6) by (simp add: handleSubmit_finish_def)
qed

theorem tok_stale_response_discarded_witness:
  "\<exists>s t. opt_run (tok_apply False None) init_session
           [TypeUrl (js ''a''), SubmitForm, TypeUrl (js ''b''), SubmitForm] = Some s \<and>
     opt_run (tok_apply False None) s
       [Reply 1 (\<lambda>rq. PostResolved \<lparr>success = True,
                 resp_articles = [\<lparr>title = payload_url rq, content = [], key_quote = []\<rparr>],
                 session_id = payload_url rq, resp_url = payload_url rq\<rparr>),
        Reply 0 (\<lambda>rq. PostResolved \<lparr>success = True,
                 resp_articles = [\<lparr>title = payload_url rq, content = [], key_quote = []\<rparr>],
                 session_id = payload_url rq, resp_url = payload_url rq\<rparr>)] = Some t \<and>
     \<not> loading (page t) \<and> articles (page t) = [\<lparr>title = js ''b'', content = [], key_quote = []\<rparr>] \<and>
     sessionId (page t) = Some (js ''b'')"
proof -
  let ?srv = "\<lambda>rq. PostResolved \<lparr>success = True,
                 resp_articles = [\<lparr>title = payload_url rq, content = [], key_quote = []\<rparr>],
                 session_id = payload_url rq, resp_url = payload_url rq\<rparr>"
  define s where "s = the (opt_run (tok_apply False None) init_session
                    [TypeUrl (js ''a''), SubmitForm, TypeUrl (js ''b''), SubmitForm])"
  have run: "opt_run (tok_apply False None) init_session
               [TypeUrl (js ''a''), SubmitForm, TypeUrl (js ''b''), SubmitForm] = Some s"
    by (simp add: s_def tok_eval_defs)
  have p: "pending s = [(0, GenerateNews (js ''http://localhost:8000/generate-news'') (js ''a'')),
                        (1, GenerateNews (js ''http://localhost:8000/generate-news'') (js ''b''))]"
    and n: "issued s = 2"
    by (simp_all add: s_def tok_eval_defs api_base_def default_api_url_def)
  let ?d = "\<lparr>success = True, resp_articles = [\<lparr>title = js ''b'', content = [], key_quote = []\<rparr>],
                session_id = js ''b'', resp_url = js ''b''\<rparr>"
  have "\<exists>t. opt_run (tok_apply False None) s [Reply 1 ?srv, Reply 0 ?srv] = Some t \<and> \<not> loading (page t) \<and>
          articles (page t) = resp_articles ?d \<and> sessionId (page t) = Some (session_id ?d)"
    by (rule tok_stale_response_discarded [where rqi = "GenerateNews (js ''http://localhost:8000/generate-news'') (js ''a'')" and rqj = "GenerateNews (js ''http://localhost:8000/generate-news'') (js ''b'')" and dj = ?d])
      (simp_all add: p n)
  then have "\<exists>t. opt_run (tok_apply False None) s [Reply 1 ?srv, Reply 0 ?srv] = Some t \<and> \<not> loading (page t) \<and>
          articles (page t) = [\<lparr>title = js ''b'', content = [], key_quote = []\<rparr>] \<and>
          sessionId (page t) = Some (js ''b'')"
    by simp
  with run show ?thesis by blast
qed

theorem tok_consistent_without_gate_witness:
  "\<exists>s. opt_run (tok_apply False None) init_session [TypeUrl (js ''a''), SubmitForm, SubmitForm] = Some s \<and>
       (loading (page s) \<longleftrightarrow> latest_in_flight s) \<and> (error (page s) \<noteq> None \<longrightarrow> articles (page s) = [])"
proof -
  define s where "s = the (opt_run (tok_apply False None) init_session [TypeUrl (js ''a''), SubmitForm, SubmitForm])"
  have run: "opt_run (tok_apply False None) init_session [TypeUrl (js ''a''), SubmitForm, SubmitForm] = Some s"
    by (simp add: s_def tok_eval_defs)
  from tok_consistent_without_gate [OF tok_run_from_init [OF run]] run show ?thesis by blast
qed

theorem tok_refines_spec_witness:
  "\<exists>s t. opt_run (tok_apply False None) init_session [TypeUrl (js ''a''), SubmitForm, SubmitForm] = Some s \<and>
       tok_apply False None s (Reply 0 (\<lambda>_. PostRejected None)) = Some t \<and>
       (abs_state (page t) = abs_state (page s) \<or> spec_step (abs_state (page s)) (abs_state (page t)))"
proof -
  define s where "s = the (opt_run (tok_apply False None) init_session [TypeUrl (js ''a''), SubmitForm, SubmitForm])"
  have run: "opt_run (tok_apply False None) init_session [TypeUrl (js ''a''), SubmitForm, SubmitForm] = Some s"
    by (simp add: s_def tok_eval_defs)
  define t where "t = the (tok_apply False None s (Reply 0 (\<lambda>_. PostRejected None)))"
  have step: "tok_apply False None s (Reply 0 (\<lambda>_. PostRejected None)) = Some t"
    by (simp add: t_def s_def tok_eval_defs)
  from tok_refines_spec [OF tok_run_from_init [OF run] step] run step show ?thesis by blast
qed

theorem tok_equals_page_under_gate_witness:
  "\<exists>s. ui_run True None init_session [TypeUrl (js ''a''), SubmitForm] = Some s \<and>
       tok_apply True None s (Reply 0 (\<lambda>_. PostRejected None)) =
       ui_apply True None s (Reply 0 (\<lambda>_. PostRejected None))"
proof -
  define s where "s = the (ui_run True None init_session [TypeUrl (js ''a''), SubmitForm])"
  have run: "ui_run True None init_session [TypeUrl (js ''a''), SubmitForm] = Some s"
    by (simp add: s_def tok_eval_defs)
  from tok_equals_page_under_gate [OF run_from_init [OF run]] run show ?thesis by blast
qed

end
