(* ===== verification/Spec2Isabelle.thy ===== *)
theory Spec2Isabelle
  imports App Response Token
begin

text \<open>
  \<^bold>\<open>A verification model of the Podcast2News client.\<close>
  The repository's client is one React component, \<^verbatim>\<open>Home\<close> in
  \<^verbatim>\<open>src/frontend/app/page.tsx\<close>. It turns a submitted URL into generated
  articles by one POST to the generation service, shows them, and downloads each article
  as a \<^verbatim>\<open>txt\<close> or \<^verbatim>\<open>docx\<close> file by one GET. The spec names four components:
  SessionController (the component's state and \<^verbatim>\<open>handleSubmit\<close>), GenerationClient
  (the POST and the reading of its outcome), ArtifactRepository (the \<^verbatim>\<open>articles\<close>
  cell) and DownloadAgent (\<^verbatim>\<open>downloadArticle\<close>). Here they are modelled from the
  code, as follows.

  \<^item> \<open>Prelude\<close>: JavaScript strings as lists of UTF-16 code units (\<open>16 word\<close>),
    the literal conversion \<open>js\<close>, the collections \<open>js_defs\<close> and \<open>page_simps\<close>,
    and shared list lemmas.
  \<^item> \<open>JsString\<close>: the library behaviour the page relies on: the white-space class of
    \<^verbatim>\<open>trim\<close> and \<^verbatim>\<open>\s\<close> (\<open>is_js_space\<close>), \<^verbatim>\<open>trim\<close> (\<open>js_trim\<close>), the
    global \<^verbatim>\<open>replace\<close> with a regular expression (\<open>re_replace_all\<close> over a
    matcher, with \<open>char_class\<close> and \<open>class_plus\<close> for the two expressions of line
    73), and the decimal rendering of the index (\<open>js_nat_str\<close>). The global replace
    is a \<^theory_text>\<open>function\<close> whose termination is proved with the measure "length of
    the rest of the string"; the lemmas show it computes a filter and a run collapse.
  \<^item> \<open>Json\<close>: the values an \<^verbatim>\<open>any\<close> can hold (\<open>jval\<close>), truthiness,
    \<^verbatim>\<open>?.\<close> and \<^verbatim>\<open>||\<close>, used for \<^verbatim>\<open>err.response?.data?.detail || ...\<close>.
  \<^item> \<open>Model\<close>: the interfaces \<^verbatim>\<open>NewsArticle\<close> and \<^verbatim>\<open>GenerateNewsResponse\<close>
    as records, the outcomes of the two axios calls, the base URL from
    \<^verbatim>\<open>NEXT_PUBLIC_API_URL\<close>, and the five \<^verbatim>\<open>useState\<close> cells as
    \<open>page_state\<close> (the ArtifactRepository is its \<open>articles\<close> field).
  \<^item> \<open>Submit\<close>: \<^verbatim>\<open>handleSubmit\<close> split at its \<^verbatim>\<open>await\<close> into
    \<open>handleSubmit_start\<close> (guard, state resets, the request) and
    \<open>handleSubmit_finish\<close> (the three outcomes and the \<^verbatim>\<open>finally\<close>), composed in
    \<open>handleSubmit\<close> against a service given as a function. Claims C1--C5 and C7.
  \<^item> \<open>Response\<close>: the resolved body as the untyped JSON value the page really reads
    (\<open>handleSubmit_finish_raw\<close>): truthiness of \<^verbatim>\<open>success\<close>, the unchecked
    \<^verbatim>\<open>articles\<close> and \<^verbatim>\<open>session_id\<close>, the \<^verbatim>\<open>TypeError\<close> of a
    \<^verbatim>\<open>null\<close> body. Claim C6.
  \<^item> \<open>Session\<close>: the page as a system of events (typing, submitting, a response to
    one of the requests in flight), with the submit button's
    \<^verbatim>\<open>disabled={loading}\<close> in force or bypassed; the spec's machine
    Idle/Loading/Error/Ready and the abstraction of the page onto it. Claims C8--C12
    and C17--C19: the invariant and the simulation under the gate, that the responses to
    all outstanding requests, in any order, bring every reachable state back to nothing
    in flight, and, without the gate, that the last response to arrive decides the page
    even when it is the older submission's, and states that the spec excludes.
  \<^item> \<open>Download\<close>: \<^verbatim>\<open>downloadArticle\<close> split at its \<^verbatim>\<open>await\<close> into
    \<open>downloadArticle_start\<close> (the \<^verbatim>\<open>sessionId\<close> guard and the GET's URL) and
    \<open>downloadArticle_finish\<close> (Blob and object URL, anchor, click, removal, release, or
    the logged error), composed in \<open>downloadArticle\<close> as an ordered list of effects;
    the filename of line 73; and the service's route (modelled from the spec, since the
    service is not among the sources) to check the URL the page builds. Claims
    C24--C32.
  \<^item> \<open>View\<close>: the state-dependent parts of the JSX (button, banner, loading panel,
    article cards and the arguments of their download buttons), with React's failure on
    an object child; used by \<open>App\<close> and by C33 and C34.
  \<^item> \<open>App\<close>: the page as one system: the events of \<open>Session\<close>, the clicks on the
    download buttons of the rendered cards (each runs \<open>downloadArticle_start\<close> with its
    button's arguments and puts a download in flight) and the replies to the downloads
    in flight (each runs \<open>downloadArticle_finish\<close>), in any interleaving, with a log of
    the effects and an observer list of the successful generation responses. Claims
    C13 (every download request names a session the service returned and an article
    index of that response), C14 (a click starts the download of the article of the
    latest successful response under that response's session), C15 (the downloads never
    change the session part of the page: every run projects onto the run of
    \<open>Session\<close> without its download events) and C16 (the replies to all downloads in
    flight, in any order, complete each of them once, logging exactly its own save
    effects), with and without the button gate, by rule
    induction over \<open>app_reachable\<close> and induction over runs.
  \<^item> \<open>Token\<close>: the request-id check that section 5 of the spec recommends, modelled
    from the spec (it is not code of the repository) as a second controller
    \<open>tok_apply\<close> that runs the page's handlers and discards a response whose number is
    not the latest. Claims C20 (with or without the gate it refines the spec's
    machine), C21 (with or without the gate the loading flag is set exactly while the
    latest submission is in flight, and an error never comes with results), C22 (under
    the gate it takes the page's step from every reachable state: equivalence up to
    reachability, so adopting it changes nothing the gated page does) and C23 (in the situation of C17 the latest
    submission's results stay).
  \<^item> This theory: behaviours that span the handlers and the view, each over all
    inputs: C33 (a non-renderable \<^verbatim>\<open>detail\<close> crashes the render), C34 (an empty
    successful result renders like the initial page) and C35 (degenerate titles).

  The external parties are parameters, not models: the generation service is any
  function from requests to outcomes (or, in \<open>Session\<close>, any outcome for each reply),
  the artifact service any function from URLs to outcomes, and the presence of
  \<^verbatim>\<open>document.body\<close> a boolean. No loop of the page can fail to terminate, so no fuel
  is used; the only recursive definitions are the string operations (structural or
  with a length measure) and the run of an event list. What can fail to end is a
  request that is never answered; C12 and C16 show that once every outstanding
  generation response or download reply arrives, whatever their order, nothing is
  left in flight. Both use the lemma \<open>drain_keys\<close> of \<open>Prelude\<close>.

  Not modelled: styling, icons and layout; the browser's constraint validation of the
  \<^verbatim>\<open>type="url" required\<close> input (the handler's own \<^verbatim>\<open>trim\<close> guard is modelled);
  React's scheduling beyond the two halves of each handler (the state updates of one
  half are applied together, as React batches them); a truthy-success body whose
  \<^verbatim>\<open>articles\<close> or \<^verbatim>\<open>session_id\<close> has a type outside the page's state cells
  (\<open>handleSubmit_finish_raw\<close> is \<open>None\<close> there, and \<open>Session\<close> and
  \<open>View\<close> use the typed outcomes); percent-decoding in the service's
  router; JSON numbers other than integers; the generation service itself.

  Findings recorded by the claims: the page never reads the response's \<^verbatim>\<open>url\<close>,
  so the source URL of the spec's Ready state is not stored (\<open>handleSubmit_finish\<close>
  has no use of \<open>resp_url\<close>, lemma \<open>finish_ignores_source_url\<close>); the page does not
  clear \<^verbatim>\<open>sessionId\<close> when a new submission starts (C7); a 2xx body of the wrong
  shape is reported as a failed generation, and a \<^verbatim>\<open>null\<close> one with the generic
  message (C6); without the button gate an older response can overwrite a newer one
  and the loading flag is cleared too early (C17--C19), which the spec's request-id
  check would prevent (C20--C23); the object URL is not released
  when \<^verbatim>\<open>appendChild\<close> throws (C30); the session id is put into the URL unencoded
  (C32); a list-valued \<^verbatim>\<open>detail\<close> crashes the render (C33); an empty result is not
  shown (C34); degenerate titles give degenerate filenames (C35).

  What remains outside the model, and why: the markup, classes and icons of the JSX
  (presentation only; the parts of the view that depend on the state are modelled in
  \<open>View\<close>, which is why Rendering is only partly modelled); the generation service,
  which is not among the sources (it is a parameter, and its download route is read
  from the spec); the untyped response body inside the session machine (\<open>Response\<close>
  shows the typed outcomes exact on every conforming body, and a non-conforming body
  that the page would store leaves the types of its state cells, so it has no image in
  the state record).
\<close>

text \<open>
  C33: a rejection whose body has a truthy \<^verbatim>\<open>detail\<close> that React cannot render as a
  child (an object, or an array holding one, such as the list of objects of a FastAPI
  request-validation error) is stored in the error cell as it is, and rendering the
  page then fails, whatever the state the request was sent from.
\<close>

theorem validation_error_crashes_render:
  assumes "opt_get data (js ''detail'') = Some d" and "js_truthy d" and "\<not> react_child_ok d"
  shows "error (handleSubmit_finish (PostRejected data) st) = Some d \<and>
         render (handleSubmit_finish (PostRejected data) st) = None"
proof -
  have e: "error_detail data = d"
    unfolding error_detail_def using assms(1,2) by (rule js_or_truthy)
  then have "error (handleSubmit_finish (PostRejected data) st) = Some d"
    by (simp add: handleSubmit_finish_def)
  with assms(2,3) show ?thesis
    by (simp add: render_def shown_error_def)
qed

text \<open>
  C34: a successful generation with an empty article list, from any state and for any
  non-blank URL, leaves a page that renders exactly like the page before any
  submission: no cards, no error, no loading panel, nothing that tells the user the
  request succeeded.
\<close>

theorem empty_result_renders_as_before:
  assumes "\<not> list_all is_js_space (url st)"
    and "srv (generate_request env st) = PostResolved d" and "success d" and "resp_articles d = []"
  shows "render (fst (handleSubmit env srv st)) = render init_page"
  using assms
  by (simp add: handleSubmit_nonblank handleSubmit_finish_def render_def shown_error_def init_page_def)

text \<open>
  C35: a title with no ASCII letter, digit or white space (for example one written
  entirely in another script) derives a filename with an empty base: a dot followed
  by the format.
\<close>

theorem filename_degenerate_title:
  assumes "list_all (\<lambda>c. \<not> is_ascii_alnum c \<and> \<not> is_js_space c) ttl"
  shows "download_filename ttl format = js ''.'' @ format"
proof -
  from assms have "filter (\<lambda>c. is_ascii_alnum c \<or> is_js_space c) ttl = []"
    by (simp add: filter_empty_conv list_all_iff)
  then show ?thesis
    by (simp add: download_filename_def strip_title_filter underscore_spaces_collapse)
qed

theorem validation_error_crashes_render_witness:
  "error (handleSubmit_finish (PostRejected (Some (JObj [(js ''detail'',
      JArr [JObj [(js ''msg'', JStr (js ''field required''))]])]))) init_page) =
     Some (JArr [JObj [(js ''msg'', JStr (js ''field required''))]]) \<and>
   render (handleSubmit_finish (PostRejected (Some (JObj [(js ''detail'',
      JArr [JObj [(js ''msg'', JStr (js ''field required''))]])]))) init_page) = None"
  by (rule validation_error_crashes_render) (simp_all add: opt_get_def)

theorem empty_result_renders_as_before_witness:
  "render (fst (handleSubmit None (\<lambda>_. PostResolved \<lparr>success = True, resp_articles = [],
       session_id = js ''s1'', resp_url = js ''u''\<rparr>) (init_page\<lparr>url := js ''u''\<rparr>))) =
   render init_page"
  by (rule empty_result_renders_as_before [where d = "\<lparr>success = True, resp_articles = [],
       session_id = js ''s1'', resp_url = js ''u''\<rparr>"]) (simp_all add: is_js_space_def)

theorem filename_degenerate_title_witness:
  "download_filename [0x4E16, 0x754C] (js ''txt'') = js ''.txt''"
  using filename_degenerate_title [of "[0x4E16, 0x754C]" "js ''txt''"]
  by (simp add: is_ascii_alnum_def is_js_space_def)

text \<open>
  A download button of a rendered card downloads that card's article: its
  arguments are the card's index, the article's title and \<^verbatim>\<open>txt\<close> or
  \<^verbatim>\<open>docx\<close>; with a session, a successful GET and a document body, the click
  requests that index under the current session and saves the file named after that
  article's title.
\<close>

theorem card_button_downloads_its_article:
  assumes "render st = Some v" and "i < length (articles st)"
    and "(j, t, f) \<in> set (card_downloads (cards v ! i))"
    and "sessionId st = Some sid" and "sid \<noteq> []"
    and "srv (download_url (api_base env) sid i f) = GetResolved bytes"
  shows "(f = js ''txt'' \<or> f = js ''docx'') \<and>
         downloadArticle env srv True st j t f =
           [HttpGet (download_url (api_base env) sid i f), CreateObjectURL bytes (blob_type f),
            AppendAnchor (download_filename (title (articles st ! i)) f), ClickAnchor,
            RemoveAnchor, RevokeObjectURL]"
proof -
  have "cards v ! i = article_card i (articles st ! i)"
    using render_card_nth [OF assms(1,2)] by simp
  with assms(3) have j: "j = i" and t: "t = title (articles st ! i)"
    and f: "f = js ''txt'' \<or> f = js ''docx''"
    by (auto simp: article_card_def)
  show ?thesis
    using f assms(4,5,6) by (simp add: j t downloadArticle_session)
qed

theorem card_button_downloads_its_article_witness:
  "downloadArticle None (\<lambda>_. GetResolved [7]) True
     (init_page\<lparr>articles := [\<lparr>title = js ''A b'', content = [], key_quote = []\<rparr>],
                sessionId := Some (js ''s1'')\<rparr>) 0 (js ''A b'') (js ''txt'') =
   [HttpGet (download_url (api_base None) (js ''s1'') 0 (js ''txt'')),
    CreateObjectURL [7] (blob_type (js ''txt'')),
    AppendAnchor (download_filename (js ''A b'') (js ''txt'')), ClickAnchor, RemoveAnchor,
    RevokeObjectURL]"
proof -
  let ?st = "init_page\<lparr>articles := [\<lparr>title = js ''A b'', content = [], key_quote = []\<rparr>],
                sessionId := Some (js ''s1'')\<rparr>"
  obtain v where v: "render ?st = Some v"
    by (simp add: render_def shown_error_def init_page_def)
  have i: "0 < length (articles ?st)" by simp
  have "(0, js ''A b'', js ''txt'') \<in> set (card_downloads (cards v ! 0))"
    using render_card_nth [OF v i] by (simp add: article_card_def)
  from card_button_downloads_its_article [OF v i this, of "js ''s1''" "\<lambda>_. GetResolved [7]" None]
  show ?thesis by simp
qed

end
